theory Spec2Isabelle
  imports Main "HOL-Library.AList"
begin

section \<open>Recipe form: ordered sections and their items\<close>

text \<open>
  The create-recipe page keeps two pieces of React state, \<open>ingredientSections\<close> and
  \<open>instructionSections\<close>: arrays of section objects, each owning an array of items.
  Objects are records with the source's field names; the instruction sections' title and
  order fields are written \<open>step_section_title\<close> and \<open>step_section_order\<close>, since one
  theory cannot hold two records with the same field name. Order indices are the
  naturals the code computes (\<open>index + 1\<close>, \<open>length + 1\<close>).
  Every handler returns the next state, as its call of the state setter does.
\<close>

record ingredient =
  ingredient_quantity :: string
  ingredient_uom :: string
  ingredient_name :: string
  ingredient_order :: nat

record ingredient_section =
  section_title :: string
  section_order :: nat
  ingredients :: "ingredient list"

record instruction =
  instruction_step :: string
  step_order :: nat

record instruction_section =
  step_section_title :: string
  step_section_order :: nat
  instructions :: "instruction list"

text \<open>
  \<open>xs.filter((_, index) => p(index))\<close> and \<open>xs.forEach((x, index) => ...)\<close> see each
  element with its zero-based index: \<open>enumerate 0 xs\<close> pairs them.
\<close>

definition filter_index :: "(nat \<Rightarrow> bool) \<Rightarrow> 'a list \<Rightarrow> 'a list" where
  "filter_index p xs = map snd (filter (\<lambda>(index, x). p index) (enumerate 0 xs))"

definition forEach_index :: "(nat \<Rightarrow> 'a \<Rightarrow> 'a) \<Rightarrow> 'a list \<Rightarrow> 'a list" where
  "forEach_index f xs = map (\<lambda>(index, x). f index x) (enumerate 0 xs)"

text \<open>The blank items a new section starts with, and the ones the add buttons push.\<close>

definition new_ingredient :: "nat \<Rightarrow> ingredient" where
  "new_ingredient n =
     \<lparr>ingredient_quantity = '''', ingredient_uom = '''', ingredient_name = '''',
      ingredient_order = n\<rparr>"

definition new_instruction :: "nat \<Rightarrow> instruction" where
  "new_instruction n = \<lparr>instruction_step = '''', step_order = n\<rparr>"

definition addIngredientSection :: "ingredient_section list \<Rightarrow> ingredient_section list" where
  "addIngredientSection ingredientSections =
     ingredientSections @
       [\<lparr>section_title = '''', section_order = length ingredientSections + 1,
         ingredients = [new_ingredient 1]\<rparr>]"

definition removeIngredientSection ::
  "nat \<Rightarrow> ingredient_section list \<Rightarrow> ingredient_section list" where
  "removeIngredientSection sectionIndex ingredientSections =
     (let updated = filter_index (\<lambda>index. index \<noteq> sectionIndex) ingredientSections
      in forEach_index (\<lambda>index section. section\<lparr>section_order := index + 1\<rparr>) updated)"

text \<open>
  \<open>updated[sectionIndex]\<close> is \<open>undefined\<close> when the index is outside the array, and
  reading \<open>.ingredients\<close> of it throws a TypeError: the result \<open>None\<close>.
\<close>

definition addIngredient ::
  "nat \<Rightarrow> ingredient_section list \<Rightarrow> ingredient_section list option" where
  "addIngredient sectionIndex ingredientSections =
     (let updated = ingredientSections
      in if sectionIndex < length updated
         then let section = updated ! sectionIndex
              in Some (updated[sectionIndex := section\<lparr>ingredients :=
                   ingredients section @
                     [new_ingredient (length (ingredients section) + 1)]\<rparr>])
         else None)"

definition removeIngredient ::
  "nat \<Rightarrow> nat \<Rightarrow> ingredient_section list \<Rightarrow> ingredient_section list option" where
  "removeIngredient sectionIndex ingredientIndex ingredientSections =
     (let updated = ingredientSections
      in if sectionIndex < length updated
         then let section = updated ! sectionIndex;
                  kept = filter_index (\<lambda>index. index \<noteq> ingredientIndex) (ingredients section)
              in Some (updated[sectionIndex := section\<lparr>ingredients :=
                   forEach_index (\<lambda>index ingredient.
                     ingredient\<lparr>ingredient_order := index + 1\<rparr>) kept\<rparr>])
         else None)"

definition addInstructionSection :: "instruction_section list \<Rightarrow> instruction_section list" where
  "addInstructionSection instructionSections =
     instructionSections @
       [\<lparr>step_section_title = '''', step_section_order = length instructionSections + 1,
         instructions = [new_instruction 1]\<rparr>]"

definition removeInstructionSection ::
  "nat \<Rightarrow> instruction_section list \<Rightarrow> instruction_section list" where
  "removeInstructionSection sectionIndex instructionSections =
     (let updated = filter_index (\<lambda>index. index \<noteq> sectionIndex) instructionSections
      in forEach_index (\<lambda>index section. section\<lparr>step_section_order := index + 1\<rparr>) updated)"

definition addInstruction ::
  "nat \<Rightarrow> instruction_section list \<Rightarrow> instruction_section list option" where
  "addInstruction sectionIndex instructionSections =
     (let updated = instructionSections
      in if sectionIndex < length updated
         then let section = updated ! sectionIndex
              in Some (updated[sectionIndex := section\<lparr>instructions :=
                   instructions section @
                     [new_instruction (length (instructions section) + 1)]\<rparr>])
         else None)"

definition removeInstruction ::
  "nat \<Rightarrow> nat \<Rightarrow> instruction_section list \<Rightarrow> instruction_section list option" where
  "removeInstruction sectionIndex instructionIndex instructionSections =
     (let updated = instructionSections
      in if sectionIndex < length updated
         then let section = updated ! sectionIndex;
                  kept = filter_index (\<lambda>index. index \<noteq> instructionIndex) (instructions section)
              in Some (updated[sectionIndex := section\<lparr>instructions :=
                   forEach_index (\<lambda>index instruction.
                     instruction\<lparr>step_order := index + 1\<rparr>) kept\<rparr>])
         else None)"

text \<open>The initial state of the two arrays.\<close>

definition initial_ingredientSections :: "ingredient_section list" where
  "initial_ingredientSections =
     [\<lparr>section_title = ''Main Ingredients'', section_order = 1,
       ingredients = [new_ingredient 1]\<rparr>]"

definition initial_instructionSections :: "instruction_section list" where
  "initial_instructionSections =
     [\<lparr>step_section_title = ''Preparation'', step_section_order = 1,
       instructions = [new_instruction 1]\<rparr>]"

text \<open>
  Two concrete states with three sections each, their sections and items told apart by
  titles, names and steps, for evaluating the handlers.
\<close>

definition named_ingredient :: "string \<Rightarrow> nat \<Rightarrow> ingredient" where
  "named_ingredient name n = (new_ingredient n)\<lparr>ingredient_name := name\<rparr>"

definition three_ingredient_sections :: "ingredient_section list" where
  "three_ingredient_sections =
     [\<lparr>section_title = ''Main Ingredients'', section_order = 1,
       ingredients = [named_ingredient ''spaghetti'' 1, named_ingredient ''eggs'' 2,
                      named_ingredient ''cheese'' 3]\<rparr>,
      \<lparr>section_title = ''Sauce'', section_order = 2,
       ingredients = [named_ingredient ''cream'' 1]\<rparr>,
      \<lparr>section_title = ''Garnish'', section_order = 3,
       ingredients = [named_ingredient ''parsley'' 1]\<rparr>]"

definition three_instruction_sections :: "instruction_section list" where
  "three_instruction_sections =
     [\<lparr>step_section_title = ''Preparation'', step_section_order = 1,
       instructions = [\<lparr>instruction_step = ''Boil'', step_order = 1\<rparr>,
                       \<lparr>instruction_step = ''Fry'', step_order = 2\<rparr>,
                       \<lparr>instruction_step = ''Mix'', step_order = 3\<rparr>]\<rparr>,
      \<lparr>step_section_title = ''Cooking'', step_section_order = 2,
       instructions = [\<lparr>instruction_step = ''Simmer'', step_order = 1\<rparr>]\<rparr>,
      \<lparr>step_section_title = ''Plating'', step_section_order = 3,
       instructions = [\<lparr>instruction_step = ''Serve'', step_order = 1\<rparr>]\<rparr>]"

section \<open>Recipe form: validation\<close>

text \<open>
  JavaScript strings are modelled as \<open>string\<close>, a \<open>char\<close> standing for the code unit
  of the same number, U+0000 to U+00FF. \<open>s.trim()\<close> strips white space and line
  terminators from both ends; those in that range are tab, line feed, vertical tab, form
  feed, carriage return, space and the no-break space U+00A0.
\<close>

definition is_white_space :: "char \<Rightarrow> bool" where
  "is_white_space c \<longleftrightarrow>
     c \<in> set [CHR 0x09, CHR 0x0A, CHR 0x0B, CHR 0x0C, CHR 0x0D, CHR 0x20, CHR 0xA0]"

definition trim :: "string \<Rightarrow> string" where
  "trim s = rev (dropWhile is_white_space (rev (dropWhile is_white_space s)))"

text \<open>
  The three numeric fields hold the value of an \<open><input type="number">\<close>, a string, and
  \<open>formData.prep_time < 0\<close> compares the number that string converts to. The conversion
  (StringToNumber) reads, between white space: nothing, which is 0; a hexadecimal, octal
  or binary literal (\<open>0x\<close>, \<open>0o\<close>, \<open>0b\<close>, with no sign); or a decimal literal, which is an
  optional sign and then \<open>Infinity\<close> or digits with an optional fraction and an optional
  exponent. Any other string is NaN. The value of a literal is kept exactly, as a
  mantissa \<open>m\<close> and a power of ten \<open>e\<close> for \<open>m * 10 ^ e\<close>; the rounding to a double is done
  where the number is compared.
\<close>

datatype js_number = NaN | PosInfinity | NegInfinity | Decimal int int

definition is_digit :: "char \<Rightarrow> bool" where
  "is_digit c \<longleftrightarrow> c \<in> set ''0123456789''"

definition digit_value :: "char \<Rightarrow> nat" where
  "digit_value c = of_char c - 48"

definition digits_value :: "string \<Rightarrow> int" where
  "digits_value ds = foldl (\<lambda>acc c. 10 * acc + int (digit_value c)) 0 ds"

definition radix_digit :: "char \<Rightarrow> nat option" where
  "radix_digit c =
     (if is_digit c then Some (digit_value c)
      else if c \<in> set ''abcdef'' then Some (of_char c - 87)
      else if c \<in> set ''ABCDEF'' then Some (of_char c - 55)
      else None)"

definition radix_literal :: "nat \<Rightarrow> string \<Rightarrow> js_number" where
  "radix_literal radix ds =
     (if ds \<noteq> [] \<and>
         list_all (\<lambda>c. case radix_digit c of Some d \<Rightarrow> d < radix | None \<Rightarrow> False) ds
      then Decimal (foldl (\<lambda>acc c. int radix * acc + int (the (radix_digit c))) 0 ds) 0
      else NaN)"

definition split_sign :: "string \<Rightarrow> int \<times> string" where
  "split_sign s =
     (case s of
        c # r \<Rightarrow> if c = CHR ''-'' then (- 1, r) else if c = CHR ''+'' then (1, r) else (1, s)
      | [] \<Rightarrow> (1, s))"

definition parse_exponent :: "string \<Rightarrow> int option" where
  "parse_exponent s =
     (case s of
        [] \<Rightarrow> Some 0
      | c # r \<Rightarrow>
          if c = CHR ''e'' \<or> c = CHR ''E''
          then (let (sg, ds) = split_sign r
                in if ds \<noteq> [] \<and> list_all is_digit ds
                   then Some (sg * digits_value ds) else None)
          else None)"

definition decimal_literal :: "string \<Rightarrow> js_number" where
  "decimal_literal t =
     (let (sg, r) = split_sign t
      in if r = ''Infinity'' then (if sg < 0 then NegInfinity else PosInfinity)
         else
           let ip = takeWhile is_digit r;
               r1 = dropWhile is_digit r;
               (fp, r2) = (case r1 of
                    c # r' \<Rightarrow> if c = CHR ''.''
                        then (takeWhile is_digit r', dropWhile is_digit r')
                        else ([], r1)
                  | [] \<Rightarrow> ([], r1))
           in if ip = [] \<and> fp = [] then NaN
              else (case parse_exponent r2 of
                      None \<Rightarrow> NaN
                    | Some ex \<Rightarrow>
                        Decimal (sg * digits_value (ip @ fp)) (ex - int (length fp))))"

definition StringToNumber :: "string \<Rightarrow> js_number" where
  "StringToNumber s =
     (let t = trim s
      in if t = [] then Decimal 0 0
         else (case t of
                 c # p # ds \<Rightarrow>
                   if c = CHR ''0'' \<and> (p = CHR ''x'' \<or> p = CHR ''X'') then radix_literal 16 ds
                   else if c = CHR ''0'' \<and> (p = CHR ''o'' \<or> p = CHR ''O'')
                   then radix_literal 8 ds
                   else if c = CHR ''0'' \<and> (p = CHR ''b'' \<or> p = CHR ''B'')
                   then radix_literal 2 ds
                   else decimal_literal t
               | _ \<Rightarrow> decimal_literal t))"

text \<open>
  The Number of a literal is the double nearest to its value, a tie going to the even
  significand, and \<open>x < 0\<close>, \<open>x < 1\<close> compare that double; NaN is below nothing.
  \<^item> The least positive double is \<open>2 ^ -1074\<close>. A value from \<open>- (2 ^ -1075)\<close> up to 0
    rounds to \<open>-0\<close>, which is not below 0, and any value below \<open>- (2 ^ -1075)\<close> rounds
    to a negative double: \<open>x < 0\<close> is \<open>m * 10 ^ e * 2 ^ 1075 < - 1\<close>.
  \<^item> The double before 1 is \<open>1 - 2 ^ -53\<close>. A value from \<open>1 - 2 ^ -54\<close>, halfway, up
    to 1 rounds to 1, and any value below it to a double below 1: \<open>x < 1\<close> is
    \<open>m * 10 ^ e * 2 ^ 54 < 2 ^ 54 - 1\<close>.
  Both are written on integers, the power of ten moved to the right when \<open>e\<close> is
  negative.
\<close>

definition number_less_0 :: "js_number \<Rightarrow> bool" where
  "number_less_0 x =
     (case x of
        NaN \<Rightarrow> False
      | PosInfinity \<Rightarrow> False
      | NegInfinity \<Rightarrow> True
      | Decimal m e \<Rightarrow>
          if 0 \<le> e then m * 10 ^ nat e * 2 ^ 1075 < - 1
          else m * 2 ^ 1075 < - (10 ^ nat (- e)))"

definition number_less_1 :: "js_number \<Rightarrow> bool" where
  "number_less_1 x =
     (case x of
        NaN \<Rightarrow> False
      | PosInfinity \<Rightarrow> False
      | NegInfinity \<Rightarrow> True
      | Decimal m e \<Rightarrow>
          if 0 \<le> e then m * 10 ^ nat e * 2 ^ 54 < 2 ^ 54 - 1
          else m * 2 ^ 54 < (2 ^ 54 - 1) * 10 ^ nat (- e))"

text \<open>\<open>s < 0\<close> and \<open>s < 1\<close> for a string \<open>s\<close>.\<close>

definition string_less_0 :: "string \<Rightarrow> bool" where
  "string_less_0 s = number_less_0 (StringToNumber s)"

definition string_less_1 :: "string \<Rightarrow> bool" where
  "string_less_1 s = number_less_1 (StringToNumber s)"

record form_data =
  recipe_name :: string
  recipe_description :: string
  recipe_image :: "string option"
  course_type :: string
  recipe_type :: string
  primary_protein :: string
  ethnic_style :: string
  prep_time :: string
  cook_time :: string
  number_servings :: string

text \<open>
  \<open>validateForm\<close> returns \<open>false\<close> after one call of \<open>setError\<close>, or \<open>true\<close> with no
  call: the result is the message set, \<open>None\<close> for \<open>true\<close>. The two \<open>for ... of\<close>
  iterations are the recursive functions below; a \<open>return\<close> inside one ends the whole
  function.
\<close>

fun check_ingredients :: "ingredient list \<Rightarrow> string option" where
  "check_ingredients [] = None"
| "check_ingredients (ingredient # rest) =
     (if trim (ingredient_name ingredient) = []
      then Some ''All ingredients must have a name''
      else check_ingredients rest)"

fun check_ingredient_sections :: "ingredient_section list \<Rightarrow> string option" where
  "check_ingredient_sections [] = None"
| "check_ingredient_sections (section # rest) =
     (if trim (section_title section) = []
      then Some ''All ingredient sections must have a title''
      else if length (ingredients section) = 0
      then Some ''Each ingredient section must have at least one ingredient''
      else (case check_ingredients (ingredients section) of
              Some e \<Rightarrow> Some e
            | None \<Rightarrow> check_ingredient_sections rest))"

fun check_instructions :: "instruction list \<Rightarrow> string option" where
  "check_instructions [] = None"
| "check_instructions (instruction # rest) =
     (if trim (instruction_step instruction) = []
      then Some ''All instruction steps must have text''
      else check_instructions rest)"

fun check_instruction_sections :: "instruction_section list \<Rightarrow> string option" where
  "check_instruction_sections [] = None"
| "check_instruction_sections (section # rest) =
     (if trim (step_section_title section) = []
      then Some ''All instruction sections must have a title''
      else if length (instructions section) = 0
      then Some ''Each instruction section must have at least one step''
      else (case check_instructions (instructions section) of
              Some e \<Rightarrow> Some e
            | None \<Rightarrow> check_instruction_sections rest))"

definition validateForm ::
  "form_data \<Rightarrow> ingredient_section list \<Rightarrow> instruction_section list \<Rightarrow> string option" where
  "validateForm formData ingredientSections instructionSections =
     (if trim (recipe_name formData) = [] then Some ''Recipe name is required''
      else if trim (recipe_description formData) = []
      then Some ''Recipe description is required''
      else if course_type formData = [] then Some ''Course type is required''
      else if recipe_type formData = [] then Some ''Recipe type is required''
      else if primary_protein formData = [] then Some ''Primary protein is required''
      else if ethnic_style formData = [] then Some ''Ethnic style is required''
      else if prep_time formData = [] \<or> string_less_0 (prep_time formData)
      then Some ''Valid prep time is required''
      else if cook_time formData = [] \<or> string_less_0 (cook_time formData)
      then Some ''Valid cook time is required''
      else if number_servings formData = [] \<or> string_less_1 (number_servings formData)
      then Some ''Number of servings must be at least 1''
      else (case check_ingredient_sections ingredientSections of
              Some e \<Rightarrow> Some e
            | None \<Rightarrow> check_instruction_sections instructionSections))"

text \<open>
  The checks of \<open>validateForm\<close>, each with its message, as a validation that did not stop
  at the first violation would report them: every violated check, in the order of the
  function.
\<close>

definition ingredient_violations :: "ingredient list \<Rightarrow> string list" where
  "ingredient_violations xs =
     concat (map (\<lambda>ingredient.
       if trim (ingredient_name ingredient) = []
       then [''All ingredients must have a name''] else []) xs)"

definition ingredient_section_violations :: "ingredient_section list \<Rightarrow> string list" where
  "ingredient_section_violations secs =
     concat (map (\<lambda>section.
       (if trim (section_title section) = []
        then [''All ingredient sections must have a title''] else []) @
       (if length (ingredients section) = 0
        then [''Each ingredient section must have at least one ingredient''] else []) @
       ingredient_violations (ingredients section)) secs)"

definition instruction_violations :: "instruction list \<Rightarrow> string list" where
  "instruction_violations xs =
     concat (map (\<lambda>instruction.
       if trim (instruction_step instruction) = []
       then [''All instruction steps must have text''] else []) xs)"

definition instruction_section_violations :: "instruction_section list \<Rightarrow> string list" where
  "instruction_section_violations secs =
     concat (map (\<lambda>section.
       (if trim (step_section_title section) = []
        then [''All instruction sections must have a title''] else []) @
       (if length (instructions section) = 0
        then [''Each instruction section must have at least one step''] else []) @
       instruction_violations (instructions section)) secs)"

definition all_violations ::
  "form_data \<Rightarrow> ingredient_section list \<Rightarrow> instruction_section list \<Rightarrow> string list" where
  "all_violations formData ingredientSections instructionSections =
     (if trim (recipe_name formData) = [] then [''Recipe name is required''] else []) @
     (if trim (recipe_description formData) = []
      then [''Recipe description is required''] else []) @
     (if course_type formData = [] then [''Course type is required''] else []) @
     (if recipe_type formData = [] then [''Recipe type is required''] else []) @
     (if primary_protein formData = [] then [''Primary protein is required''] else []) @
     (if ethnic_style formData = [] then [''Ethnic style is required''] else []) @
     (if prep_time formData = [] \<or> string_less_0 (prep_time formData)
      then [''Valid prep time is required''] else []) @
     (if cook_time formData = [] \<or> string_less_0 (cook_time formData)
      then [''Valid cook time is required''] else []) @
     (if number_servings formData = [] \<or> string_less_1 (number_servings formData)
      then [''Number of servings must be at least 1''] else []) @
     ingredient_section_violations ingredientSections @
     instruction_section_violations instructionSections"

text \<open>The first message of such a list, if it has one.\<close>

definition first_reported :: "string list \<Rightarrow> string option" where
  "first_reported ms = (case ms of [] \<Rightarrow> None | m # _ \<Rightarrow> Some m)"

text \<open>
  A form whose sections are filled in and whose basic fields are valid but for two: the
  recipe name is blank and the number of servings is 0.
\<close>

definition filled_ingredientSections :: "ingredient_section list" where
  "filled_ingredientSections =
     [\<lparr>section_title = ''Main Ingredients'', section_order = 1,
       ingredients = [\<lparr>ingredient_quantity = ''1'', ingredient_uom = ''lb'',
         ingredient_name = ''spaghetti'', ingredient_order = 1\<rparr>]\<rparr>]"

definition filled_instructionSections :: "instruction_section list" where
  "filled_instructionSections =
     [\<lparr>step_section_title = ''Preparation'', step_section_order = 1,
       instructions = [\<lparr>instruction_step = ''Cook spaghetti'', step_order = 1\<rparr>]\<rparr>]"

definition carbonara_form :: form_data where
  "carbonara_form =
     \<lparr>recipe_name = ''Spaghetti Carbonara'', recipe_description = ''Classic'',
      recipe_image = None, course_type = ''Dinner'', recipe_type = ''Main'',
      primary_protein = ''Pork'', ethnic_style = ''Italian'', prep_time = ''10'',
      cook_time = ''20'', number_servings = ''4''\<rparr>"

definition two_violations_form :: form_data where
  "two_violations_form = carbonara_form\<lparr>recipe_name := '' '', number_servings := ''0''\<rparr>"

section \<open>Recipe list pages: query parameters\<close>

text \<open>
  JavaScript values, as far as the client handles them, and objects as association
  lists in insertion order. \<open>truthy\<close> is the conversion to boolean that \<open>if\<close>, \<open>!\<close> and
  \<open>&&\<close> apply.
\<close>

datatype jsvalue =
    JUndefined
  | JNull
  | JBool bool
  | JNumber int
  | JString string
  | JObject "(string \<times> jsvalue) list"

fun truthy :: "jsvalue \<Rightarrow> bool" where
  "truthy JUndefined = False"
| "truthy JNull = False"
| "truthy (JBool b) = b"
| "truthy (JNumber n) = (n \<noteq> 0)"
| "truthy (JString s) = (s \<noteq> [])"
| "truthy (JObject _) = True"

type_synonym js_object = "(string \<times> jsvalue) list"

text \<open>
  The filter state of both list pages is an object of strings, initially the four facet
  names with the value \<open>''\<close>. \<open>{...filters}\<close> copies its properties in order.
\<close>

definition initial_filters :: "(string \<times> string) list" where
  "initial_filters =
     [(''course_type'', ''''), (''recipe_type'', ''''), (''primary_protein'', ''''),
      (''ethnic_style'', '''')]"

definition handleFilterChange ::
  "string \<Rightarrow> string \<Rightarrow> (string \<times> string) list \<Rightarrow> (string \<times> string) list" where
  "handleFilterChange filterName v prev = AList.update filterName v prev"

definition spread_filters :: "(string \<times> string) list \<Rightarrow> js_object \<Rightarrow> js_object" where
  "spread_filters filters obj = fold (\<lambda>(k, v). AList.update k (JString v)) filters obj"

text \<open>
  \<open>...(searchTerm && { search: searchTerm })\<close> adds the property when the term is not
  empty, and nothing when \<open>searchTerm\<close> is \<open>''\<close>.
\<close>

definition spread_search :: "string \<Rightarrow> js_object \<Rightarrow> js_object" where
  "spread_search searchTerm obj =
     (if searchTerm \<noteq> [] then AList.update ''search'' (JString searchTerm) obj else obj)"

text \<open>
  \<open>Object.keys(params).forEach((key) => { if (params[key] === '') delete params[key]; })\<close>:
  the keys are listed once, before the loop deletes.
\<close>

definition remove_empty_filters :: "js_object \<Rightarrow> js_object" where
  "remove_empty_filters params =
     fold (\<lambda>key params.
             if map_of params key = Some (JString []) then AList.delete key params
             else params)
       (map fst params) params"

text \<open>The \<open>params\<close> that \<open>fetchRecipes\<close> passes to \<open>recipeService.getRecipes\<close>.\<close>

definition fetchRecipes_params :: "(string \<times> string) list \<Rightarrow> string \<Rightarrow> js_object" where
  "fetchRecipes_params filters searchTerm =
     remove_empty_filters (spread_search searchTerm (spread_filters filters []))"

text \<open>
  The same in \<open>fetchMyRecipes\<close>, with \<open>uploaded_by: user?.id\<close> between the two spreads;
  \<open>user_id\<close> is the value of \<open>user?.id\<close>, \<open>JUndefined\<close> when there is no user.
\<close>

definition fetchMyRecipes_params ::
  "(string \<times> string) list \<Rightarrow> jsvalue \<Rightarrow> string \<Rightarrow> js_object" where
  "fetchMyRecipes_params filters user_id searchTerm =
     remove_empty_filters
       (spread_search searchTerm
          (AList.update ''uploaded_by'' user_id (spread_filters filters [])))"

definition dinner_filters :: "(string \<times> string) list" where
  "dinner_filters =
     handleFilterChange ''primary_protein'' ''Chicken''
       (handleFilterChange ''course_type'' ''Dinner'' initial_filters)"

section \<open>Comment section\<close>

text \<open>
  The component's state, and the calls of \<open>commentService\<close> a handler issues, in order.
  What the server answers is not the component's: each handler takes the outcome of its
  awaited call as an argument, a rejection carrying \<open>err.response?.data?.detail\<close> if
  there is one.
\<close>

record comment =
  comment_id :: nat
  user_name :: string
  comment_text :: string
  can_delete :: bool

record comment_section =
  comments :: "comment list"
  loading :: bool
  submitting :: bool
  commentText :: string
  error :: string

datatype service_call =
    GetComments jsvalue
  | CreateComment jsvalue string
  | DeleteComment nat

datatype comments_data =
    CommentArray "comment list"
  | CommentPage "comment list"
  | UnexpectedData

datatype 'a outcome = Resolved 'a | Rejected "string option"

definition initial_comment_section :: comment_section where
  "initial_comment_section =
     \<lparr>comments = [], loading = True, submitting = False, commentText = [], error = []\<rparr>"

definition fetchComments ::
  "jsvalue \<Rightarrow> comments_data outcome \<Rightarrow> comment_section \<Rightarrow> comment_section \<times> service_call list"
where
  "fetchComments recipeId got st =
     (let st1 = st\<lparr>loading := True, error := []\<rparr>;
          st2 = (case got of
                   Resolved (CommentArray cs) \<Rightarrow> st1\<lparr>comments := cs\<rparr>
                 | Resolved (CommentPage cs) \<Rightarrow> st1\<lparr>comments := cs\<rparr>
                 | Resolved UnexpectedData \<Rightarrow> st1\<lparr>comments := []\<rparr>
                 | Rejected _ \<Rightarrow> st1\<lparr>error := ''Failed to load comments.'', comments := []\<rparr>)
      in (st2\<lparr>loading := False\<rparr>, [GetComments recipeId]))"

definition handleSubmit ::
  "jsvalue \<Rightarrow> unit outcome \<Rightarrow> comments_data outcome \<Rightarrow> comment_section
     \<Rightarrow> comment_section \<times> service_call list"
where
  "handleSubmit recipeId created got st =
     (if trim (commentText st) = []
      then (st\<lparr>error := ''Comment cannot be empty.''\<rparr>, [])
      else
        let st1 = st\<lparr>submitting := True, error := []\<rparr>;
            call = CreateComment recipeId (trim (commentText st))
        in (case created of
              Resolved _ \<Rightarrow>
                (let (st2, calls) = fetchComments recipeId got (st1\<lparr>commentText := []\<rparr>)
                 in (st2\<lparr>submitting := False\<rparr>, call # calls))
            | Rejected detail \<Rightarrow>
                (st1\<lparr>error := (case detail of
                                  Some d \<Rightarrow> if d \<noteq> [] then d
                                    else ''Failed to post comment. Please try again.''
                                | None \<Rightarrow> ''Failed to post comment. Please try again.''),
                      submitting := False\<rparr>,
                 [call])))"

text \<open>
  What the component renders: nothing without a recipe id, a panel with a spinner while
  loading, and
  otherwise the heading with the number of comments, then the form for an authenticated user or the invitation to
  log in, then the comments or the notice that there are none.
\<close>

datatype element = LoadingPanel | Heading nat | CommentForm | LoginPrompt | NoComments | CommentList

definition render :: "jsvalue \<Rightarrow> bool \<Rightarrow> comment_section \<Rightarrow> element list" where
  "render recipeId isAuthenticated st =
     (if \<not> truthy recipeId then []
      else if loading st then [LoadingPanel]
      else [Heading (length (comments st)),
            if isAuthenticated then CommentForm else LoginPrompt,
            if length (comments st) = 0 then NoComments else CommentList])"

section \<open>The client's world: storage, network, navigation, timers\<close>

text \<open>
  The API client, the authentication service and the authentication context act on the
  browser: \<open>localStorage\<close>, the network, \<open>window.location\<close> and the timer table. The
  record \<open>world\<close> is that state, passed through every function.
  \<^item> \<open>network\<close> is the log of the HTTP calls made so far;
  \<^item> \<open>navigations\<close> is the log of the assignments to \<open>window.location.href\<close>, each with
    the \<open>localStorage\<close> of that moment;
  \<^item> \<open>timers\<close> are the pending timeouts, a handle and the time at which it is due, and
    \<open>now\<close> is the clock, in milliseconds; every timeout set here has the same callback,
    \<open>handleInactivityLogout\<close>;
  \<^item> \<open>listeners\<close> are the event types for which \<open>handleActivity\<close> is registered on
    \<open>window\<close>.
  The server is not the client's: a function \<open>server\<close> gives the reply to the last call of
  a log, so a reply may depend on everything sent before. A reply is a response with a
  status and a body, or none (a network error or the 15 s timeout).
\<close>

record request =
  url :: string
  body :: jsvalue
  is_form_data :: bool
  authorization :: "string option"
  content_type :: "string option"
  retry :: bool

datatype call = ApiCall request | RefreshCall string

datatype reply = Response nat jsvalue | NoResponse

type_synonym server = "call list \<Rightarrow> reply"

record world =
  localStorage :: "string \<rightharpoonup> string"
  network :: "call list"
  navigations :: "(string \<times> (string \<rightharpoonup> string)) list"
  inactivityTimerRef :: "nat option"
  timers :: "(nat \<times> nat) list"
  next_timer :: nat
  now :: nat
  userState :: "string option"
  listeners :: "string list"

definition getItem :: "string \<Rightarrow> world \<Rightarrow> string option" where
  "getItem key w = localStorage w key"

definition setItem :: "string \<Rightarrow> string \<Rightarrow> world \<Rightarrow> world" where
  "setItem key v w = w\<lparr>localStorage := (localStorage w)(key \<mapsto> v)\<rparr>"

definition removeItem :: "string \<Rightarrow> world \<Rightarrow> world" where
  "removeItem key w = w\<lparr>localStorage := (localStorage w)(key := None)\<rparr>"

definition set_location_href :: "string \<Rightarrow> world \<Rightarrow> world" where
  "set_location_href href w = w\<lparr>navigations := navigations w @ [(href, localStorage w)]\<rparr>"

text \<open>\<open>getItem\<close> gives \<open>null\<close> or a string; the string is truthy when it is not empty.\<close>

definition truthy_item :: "string option \<Rightarrow> bool" where
  "truthy_item item = (case item of None \<Rightarrow> False | Some s \<Rightarrow> s \<noteq> [])"

text \<open>The conversion of a value to a string, as \<open>setItem\<close> and a template literal apply it.\<close>

definition digit_char :: "nat \<Rightarrow> char" where
  "digit_char d = ''0123456789'' ! d"

fun decimal :: "nat \<Rightarrow> string \<Rightarrow> string" where
  "decimal n acc =
     (let acc' = digit_char (n mod 10) # acc
      in if n div 10 = 0 then acc' else decimal (n div 10) acc')"

declare decimal.simps [simp del]

definition number_to_string :: "int \<Rightarrow> string" where
  "number_to_string i =
     (if i < 0 then CHR ''-'' # decimal (nat (- i)) [] else decimal (nat i) [])"

fun to_string :: "jsvalue \<Rightarrow> string" where
  "to_string JUndefined = ''undefined''"
| "to_string JNull = ''null''"
| "to_string (JBool b) = (if b then ''true'' else ''false'')"
| "to_string (JNumber n) = number_to_string n"
| "to_string (JString s) = s"
| "to_string (JObject _) = ''[object Object]''"

subsection \<open>The API client\<close>

text \<open>
  axios resolves a reply whose status is in 200..299 and rejects any other, the error
  carrying the response if there was one. An error that is not axios's is the TypeError
  of destructuring \<open>null\<close> or \<open>undefined\<close>.
\<close>

datatype failure = AxiosError reply | TypeError

datatype api_result = Success reply | Failure failure

definition resolves :: "reply \<Rightarrow> bool" where
  "resolves rep = (case rep of Response st _ \<Rightarrow> 200 \<le> st \<and> st < 300 | NoResponse \<Rightarrow> False)"

definition response_status :: "reply \<Rightarrow> nat option" where
  "response_status rep = (case rep of Response st _ \<Rightarrow> Some st | NoResponse \<Rightarrow> None)"

text \<open>The request interceptor: the bearer token of the moment, and the JSON content type.\<close>

definition request_interceptor :: "world \<Rightarrow> request \<Rightarrow> request" where
  "request_interceptor w config =
     (let config1 = (case getItem ''access_token'' w of
                       Some token \<Rightarrow>
                         if token \<noteq> [] then config\<lparr>authorization := Some (''Bearer '' @ token)\<rparr>
                         else config
                     | None \<Rightarrow> config)
      in if \<not> is_form_data config1 then config1\<lparr>content_type := Some ''application/json''\<rparr>
         else config1)"

text \<open>
  \<open>const { access } = response.data\<close> in the refresh: the property of an object,
  \<open>undefined\<close> on any other value, and a TypeError on \<open>null\<close> and \<open>undefined\<close>. A refresh
  that is rejected, or whose body cannot be destructured, ends in the \<open>catch\<close>.
\<close>

definition refresh_access :: "reply \<Rightarrow> failure + jsvalue" where
  "refresh_access rep =
     (if resolves rep
      then (case rep of
              Response _ (JObject props) \<Rightarrow>
                Inr (case map_of props ''access'' of Some v \<Rightarrow> v | None \<Rightarrow> JUndefined)
            | Response _ JUndefined \<Rightarrow> Inl TypeError
            | Response _ JNull \<Rightarrow> Inl TypeError
            | Response _ _ \<Rightarrow> Inr JUndefined
            | NoResponse \<Rightarrow> Inl (AxiosError rep))
      else Inl (AxiosError rep))"

definition clear_session :: "world \<Rightarrow> world" where
  "clear_session w =
     removeItem ''user'' (removeItem ''refresh_token'' (removeItem ''access_token'' w))"

text \<open>
  A call \<open>api(config)\<close>: the request interceptor, the request itself, and on a rejection
  the response interceptor. \<open>originalRequest._retry = true\<close> marks the configuration, and
  \<open>api(originalRequest)\<close> sends it again through both interceptors. The refresh is posted
  with axios itself, outside the interceptors. The recursion ends because the call it
  makes is marked.
\<close>

function api :: "server \<Rightarrow> request \<Rightarrow> world \<Rightarrow> api_result \<times> world" where
  "api srv req w =
     (let config = request_interceptor w req;
          w1 = w\<lparr>network := network w @ [ApiCall config]\<rparr>;
          rep = srv (network w1)
      in if resolves rep then (Success rep, w1)
         else if response_status rep = Some 401 \<and> \<not> retry config
         then
           let originalRequest = config\<lparr>retry := True\<rparr>;
               refreshToken = getItem ''refresh_token'' w1
           in if truthy_item refreshToken
              then
                let w2 = w1\<lparr>network := network w1 @ [RefreshCall (the refreshToken)]\<rparr>;
                    response = srv (network w2)
                in (case refresh_access response of
                      Inr access \<Rightarrow>
                        api srv
                          (originalRequest
                             \<lparr>authorization := Some (''Bearer '' @ to_string access)\<rparr>)
                          (setItem ''access_token'' (to_string access) w2)
                    | Inl refreshError \<Rightarrow>
                        (Failure refreshError,
                         set_location_href ''/login?reason=session_expired''
                           (clear_session w2)))
              else (Failure (AxiosError rep),
                    set_location_href ''/login?reason=no_session'' (clear_session w1))
         else (Failure (AxiosError rep), w1))"
  by pat_completeness auto

termination api
  by (relation "measure (\<lambda>(srv, req, w). if retry req then 0 else 1)")
    (auto simp add: request_interceptor_def Let_def split: option.splits if_splits)

declare api.simps [simp del]

subsection \<open>The authentication service\<close>

text \<open>
  A user object is kept as its JSON text, which is what \<open>localStorage\<close> holds under
  \<open>user\<close>. \<open>JSON.parse\<close> is the parameter \<open>parse\<close>, \<open>None\<close> where it throws.
\<close>

definition USER_KEY :: string where "USER_KEY = ''user''"
definition ACCESS_KEY :: string where "ACCESS_KEY = ''access_token''"
definition REFRESH_KEY :: string where "REFRESH_KEY = ''refresh_token''"

definition getCurrentUser :: "(string \<Rightarrow> jsvalue option) \<Rightarrow> world \<Rightarrow> jsvalue" where
  "getCurrentUser parse w =
     (let userStr = getItem USER_KEY w
      in if \<not> truthy_item userStr then JNull
         else (case parse (the userStr) of Some v \<Rightarrow> v | None \<Rightarrow> JNull))"

definition setCurrentUser :: "string option \<Rightarrow> world \<Rightarrow> world" where
  "setCurrentUser user w = (case user of None \<Rightarrow> w | Some json \<Rightarrow> setItem USER_KEY json w)"

definition clearCurrentUser :: "world \<Rightarrow> world" where
  "clearCurrentUser w = removeItem USER_KEY w"

definition logout_request :: "string \<Rightarrow> request" where
  "logout_request refreshToken =
     \<lparr>url = ''/auth/logout/'', body = JObject [(''refresh'', JString refreshToken)],
      is_form_data = False, authorization = None, content_type = None, retry = False\<rparr>"

text \<open>
  \<open>authService.logout\<close>: the \<open>catch\<close> swallows a rejection of the request, and the
  \<open>finally\<close> runs after either outcome and when no request was made.
\<close>

definition authService_logout :: "server \<Rightarrow> world \<Rightarrow> world" where
  "authService_logout srv w =
     (let refreshToken = getItem REFRESH_KEY w;
          w1 = (if truthy_item refreshToken
                then snd (api srv (logout_request (the refreshToken)) w)
                else w)
      in clearCurrentUser (removeItem REFRESH_KEY (removeItem ACCESS_KEY w1)))"

text \<open>The file's first version of the service, which names the three keys in place.\<close>

definition authService_logout_v1 :: "server \<Rightarrow> world \<Rightarrow> world" where
  "authService_logout_v1 srv w =
     (let refreshToken = getItem ''refresh_token'' w;
          w1 = (if truthy_item refreshToken
                then snd (api srv (logout_request (the refreshToken)) w)
                else w)
      in removeItem ''user'' (removeItem ''refresh_token'' (removeItem ''access_token'' w1)))"

subsection \<open>The authentication context and its inactivity timer\<close>

definition INACTIVITY_TIMEOUT :: nat where
  "INACTIVITY_TIMEOUT = 12 * 60 * 60 * 1000"

definition activityEvents :: "string list" where
  "activityEvents = [''mousedown'', ''keydown'', ''scroll'', ''touchstart'', ''click'']"

text \<open>
  \<open>setTimeout\<close> gives a fresh handle, a positive number, and the timeout is due
  \<open>delay\<close> milliseconds from now; \<open>clearTimeout\<close> takes the timeout from the table.
\<close>

definition setTimeout :: "nat \<Rightarrow> world \<Rightarrow> nat \<times> world" where
  "setTimeout delay w =
     (next_timer w,
      w\<lparr>timers := timers w @ [(next_timer w, now w + delay)],
        next_timer := next_timer w + 1\<rparr>)"

definition clearTimeout :: "nat \<Rightarrow> world \<Rightarrow> world" where
  "clearTimeout handle w = w\<lparr>timers := filter (\<lambda>(h, due). h \<noteq> handle) (timers w)\<rparr>"

definition setUserState :: "string option \<Rightarrow> world \<Rightarrow> world" where
  "setUserState user w = w\<lparr>userState := user\<rparr>"

definition clearInactivityTimer :: "world \<Rightarrow> world" where
  "clearInactivityTimer w =
     (case inactivityTimerRef w of
        Some handle \<Rightarrow>
          if handle \<noteq> 0 then (clearTimeout handle w)\<lparr>inactivityTimerRef := None\<rparr> else w
      | None \<Rightarrow> w)"

definition handleInactivityLogout :: "server \<Rightarrow> world \<Rightarrow> world" where
  "handleInactivityLogout srv w =
     set_location_href ''/login?reason=inactivity''
       (setUserState None (authService_logout srv w))"

definition resetInactivityTimer :: "(string \<Rightarrow> jsvalue option) \<Rightarrow> world \<Rightarrow> world" where
  "resetInactivityTimer parse w =
     (let w1 = clearInactivityTimer w
      in if truthy (getCurrentUser parse w1)
         then (let (handle, w2) = setTimeout INACTIVITY_TIMEOUT w1
               in w2\<lparr>inactivityTimerRef := Some handle\<rparr>)
         else w1)"

definition handleActivity :: "(string \<Rightarrow> jsvalue option) \<Rightarrow> world \<Rightarrow> world" where
  "handleActivity parse w =
     (if truthy (getCurrentUser parse w) then resetInactivityTimer parse w else w)"

text \<open>The effect run when the provider mounts, and its cleanup.\<close>

definition mount :: "(string \<Rightarrow> jsvalue option) \<Rightarrow> world \<Rightarrow> world" where
  "mount parse w =
     (let w1 = (if truthy (getCurrentUser parse w)
                then resetInactivityTimer parse (setUserState (getItem USER_KEY w) w)
                else w)
      in w1\<lparr>listeners := listeners w1 @ activityEvents\<rparr>)"

definition unmount :: "world \<Rightarrow> world" where
  "unmount w =
     (let w1 = clearInactivityTimer w
      in w1\<lparr>listeners := filter (\<lambda>event. event \<notin> set activityEvents) (listeners w1)\<rparr>)"

text \<open>An event of type \<open>event\<close> on \<open>window\<close>, and a list of them one after the other.\<close>

definition dispatchEvent :: "(string \<Rightarrow> jsvalue option) \<Rightarrow> string \<Rightarrow> world \<Rightarrow> world" where
  "dispatchEvent parse event w =
     (if event \<in> set (listeners w) then handleActivity parse w else w)"

definition dispatchEvents :: "(string \<Rightarrow> jsvalue option) \<Rightarrow> string list \<Rightarrow> world \<Rightarrow> world" where
  "dispatchEvents parse events w = fold (dispatchEvent parse) events w"

definition setUser :: "(string \<Rightarrow> jsvalue option) \<Rightarrow> string option \<Rightarrow> world \<Rightarrow> world" where
  "setUser parse nextUser w =
     (let w1 = setUserState nextUser w
      in case nextUser of
           Some json \<Rightarrow> resetInactivityTimer parse (setCurrentUser nextUser w1)
         | None \<Rightarrow> clearInactivityTimer (clearCurrentUser w1))"

text \<open>
  The context's \<open>logout\<close>. While \<open>authService.logout\<close> is awaited the event loop runs
  other tasks: \<open>events\<close> are the window events that arrive before the reply does.
\<close>

definition logout ::
  "server \<Rightarrow> (string \<Rightarrow> jsvalue option) \<Rightarrow> string list \<Rightarrow> world \<Rightarrow> world" where
  "logout srv parse events w =
     setUser parse None
       (authService_logout srv (dispatchEvents parse events (clearInactivityTimer w)))"

text \<open>
  Time passing: the clock moves on by \<open>dt\<close>, and every timeout then due leaves the table
  and runs its callback.
\<close>

definition advance :: "server \<Rightarrow> nat \<Rightarrow> world \<Rightarrow> world" where
  "advance srv dt w =
     (let w1 = w\<lparr>now := now w + dt\<rparr>;
          due = filter (\<lambda>(h, t). t \<le> now w1) (timers w1);
          w2 = w1\<lparr>timers := filter (\<lambda>(h, t). \<not> t \<le> now w1) (timers w1)\<rparr>
      in fold (\<lambda>_. handleInactivityLogout srv) due w2)"

text \<open>
  The timer table holds at most the timeout the reference names, and handles are
  positive, as the browser gives them.
\<close>

definition timer_inv :: "world \<Rightarrow> bool" where
  "timer_inv w \<longleftrightarrow>
     0 < next_timer w \<and>
     (case inactivityTimerRef w of None \<Rightarrow> True | Some h \<Rightarrow> 0 < h) \<and>
     (\<forall>(h, due) \<in> set (timers w). inactivityTimerRef w = Some h)"

text \<open>A fresh page, and servers and sessions to run the client against.\<close>

definition fresh_world :: world where
  "fresh_world =
     \<lparr>localStorage = Map.empty, network = [], navigations = [], inactivityTimerRef = None,
      timers = [], next_timer = 1, now = 0, userState = None, listeners = []\<rparr>"

definition chris_json :: string where
  "chris_json = ''{\"id\":1}''"

definition parse_chris :: "string \<Rightarrow> jsvalue option" where
  "parse_chris s = (if s = chris_json then Some (JObject [(''id'', JNumber 1)]) else None)"

definition signed_in_world :: world where
  "signed_in_world =
     setItem ''user'' chris_json
       (setItem ''refresh_token'' ''r1'' (setItem ''access_token'' ''a1'' fresh_world))"

definition get_recipes :: request where
  "get_recipes =
     \<lparr>url = ''/recipes/'', body = JUndefined, is_form_data = False, authorization = None,
      content_type = None, retry = False\<rparr>"

definition always_401 :: server where
  "always_401 log = Response 401 JNull"

definition expired_access_server :: server where
  "expired_access_server log =
     (case last log of
        RefreshCall t \<Rightarrow> Response 200 (JObject [(''access'', JString ''a2'')])
      | ApiCall r \<Rightarrow>
          if authorization r = Some ''Bearer a2'' then Response 200 (JObject [])
          else Response 401 JNull)"

text \<open>
  The calls one invocation of \<open>api\<close> adds to the log, the reply to its first request
  and the reply to the refresh that follows it, and counting the calls of either kind.
\<close>

definition calls_made :: "server \<Rightarrow> request \<Rightarrow> world \<Rightarrow> call list" where
  "calls_made srv req w = drop (length (network w)) (network (snd (api srv req w)))"

definition first_reply :: "server \<Rightarrow> request \<Rightarrow> world \<Rightarrow> reply" where
  "first_reply srv req w = srv (network w @ [ApiCall (request_interceptor w req)])"

fun is_refresh :: "call \<Rightarrow> bool" where
  "is_refresh (RefreshCall _) = True"
| "is_refresh (ApiCall _) = False"

definition refresh_attempts :: "call list \<Rightarrow> nat" where
  "refresh_attempts log = length (filter is_refresh log)"

definition requests_sent :: "call list \<Rightarrow> nat" where
  "requests_sent log = length (filter (\<lambda>c. \<not> is_refresh c) log)"

definition refresh_reply :: "server \<Rightarrow> request \<Rightarrow> world \<Rightarrow> reply" where
  "refresh_reply srv req w =
     srv (network w @ [ApiCall (request_interceptor w req),
                       RefreshCall (the (getItem ''refresh_token'' w))])"

text \<open>
  The navigations one invocation of \<open>api\<close> adds to the log, and a storage holding none of
  the session's three entries.
\<close>

definition navigations_made ::
  "server \<Rightarrow> request \<Rightarrow> world \<Rightarrow> (string \<times> (string \<rightharpoonup> string)) list" where
  "navigations_made srv req w =
     drop (length (navigations w)) (navigations (snd (api srv req w)))"

definition session_cleared :: "(string \<rightharpoonup> string) \<Rightarrow> bool" where
  "session_cleared store \<longleftrightarrow>
     store ''access_token'' = None \<and> store ''refresh_token'' = None \<and> store ''user'' = None"

text \<open>The signed-in page after the provider has mounted.\<close>

definition mounted_world :: world where
  "mounted_world = mount parse_chris signed_in_world"

section \<open>Recipe aggregate on the server: the derived total time\<close>

text \<open>
  The server that stores recipes is not among the sources; the client only sends
  \<open>prep_time\<close> and \<open>cook_time\<close> and displays the \<open>total_time\<close> it gets back. The
  definitions of this section follow the specification of the aggregate model and of the
  nested write transaction, as far as the total time needs them. Times are integers, in
  minutes. The fields carry a prefix, the form's record having taken the plain names.
\<close>

text \<open>
  Modelled from the spec: the function \<open>computeTotalTime(prep, cook)\<close> of the aggregate
  model, which is \<open>prep + cook\<close>.
\<close>

definition computeTotalTime :: "int \<Rightarrow> int \<Rightarrow> int" where
  "computeTotalTime prep cook = prep + cook"

text \<open>
  Modelled from the spec: the flat fields of a write payload that validation and the
  total time read, the stored row, which has no total time of its own (``never stored
  independently of its inputs''), and the recipe as returned.
\<close>

record recipe_payload =
  payload_name :: string
  payload_prep_time :: int
  payload_cook_time :: int
  payload_servings :: int

record stored_recipe =
  stored_name :: string
  stored_prep_time :: int
  stored_cook_time :: int
  stored_servings :: int
  stored_deleted :: bool

record returned_recipe =
  returned_id :: nat
  returned_name :: string
  returned_prep_time :: int
  returned_cook_time :: int
  total_time :: int
  returned_servings :: int

record recipe_store =
  rows :: "nat \<rightharpoonup> stored_recipe"
  next_id :: nat

text \<open>
  Modelled from the spec: the part of \<open>validate(recipe)\<close> on the flat numeric fields and
  the name (a blank name, a negative time, fewer than one serving); the violated fields
  are listed, all of them.
\<close>

definition validate_payload :: "recipe_payload \<Rightarrow> string list" where
  "validate_payload p =
     (if trim (payload_name p) = [] then [''recipe_name''] else []) @
     (if payload_prep_time p < 0 then [''prep_time''] else []) @
     (if payload_cook_time p < 0 then [''cook_time''] else []) @
     (if payload_servings p < 1 then [''number_servings''] else [])"

text \<open>
  Modelled from the spec: the single-recipe read, which returns the row with its total
  time computed from the two stored times.
\<close>

definition materialize :: "nat \<Rightarrow> stored_recipe \<Rightarrow> returned_recipe" where
  "materialize rid row =
     \<lparr>returned_id = rid, returned_name = stored_name row,
      returned_prep_time = stored_prep_time row, returned_cook_time = stored_cook_time row,
      total_time = computeTotalTime (stored_prep_time row) (stored_cook_time row),
      returned_servings = stored_servings row\<rparr>"

text \<open>
  Modelled from the spec: a missing or soft-deleted recipe is not returned by a read.
\<close>

definition read_recipe :: "nat \<Rightarrow> recipe_store \<Rightarrow> returned_recipe option" where
  "read_recipe rid store =
     (case rows store rid of
        None \<Rightarrow> None
      | Some row \<Rightarrow> if stored_deleted row then None else Some (materialize rid row))"

text \<open>
  Modelled from the spec: the row persisted for a payload, whose times are the payload's.
\<close>

definition row_of_payload :: "recipe_payload \<Rightarrow> stored_recipe" where
  "row_of_payload p =
     \<lparr>stored_name = payload_name p, stored_prep_time = payload_prep_time p,
      stored_cook_time = payload_cook_time p, stored_servings = payload_servings p,
      stored_deleted = False\<rparr>"

text \<open>
  Modelled from the spec: create, which validates, persists the row under a new
  identifier and returns the recipe as read back; a payload with violations aborts with
  all of them and writes nothing.
\<close>

definition create_recipe ::
  "recipe_payload \<Rightarrow> recipe_store \<Rightarrow> string list + (returned_recipe \<times> recipe_store)" where
  "create_recipe p store =
     (case validate_payload p of
        [] \<Rightarrow>
          (let rid = next_id store;
               row = row_of_payload p
           in Inr (materialize rid row,
                   store\<lparr>rows := (rows store)(rid \<mapsto> row), next_id := rid + 1\<rparr>))
      | v # vs \<Rightarrow> Inl (v # vs))"

text \<open>
  Modelled from the spec: update, with the same validation, which replaces the row of an
  existing recipe; a missing or soft-deleted target is the error \<open>NotFoundError\<close>.
\<close>

definition update_recipe ::
  "nat \<Rightarrow> recipe_payload \<Rightarrow> recipe_store
     \<Rightarrow> string list + (returned_recipe \<times> recipe_store)" where
  "update_recipe rid p store =
     (case validate_payload p of
        [] \<Rightarrow>
          (case read_recipe rid store of
             None \<Rightarrow> Inl [''NotFoundError'']
           | Some _ \<Rightarrow>
               (let row = row_of_payload p
                in Inr (materialize rid row, store\<lparr>rows := (rows store)(rid \<mapsto> row)\<rparr>)))
      | v # vs \<Rightarrow> Inl (v # vs))"

text \<open>A store with no recipe, and the payload of the specification's example.\<close>

definition empty_store :: recipe_store where
  "empty_store = \<lparr>rows = Map.empty, next_id = 1\<rparr>"

definition carbonara_payload :: recipe_payload where
  "carbonara_payload =
     \<lparr>payload_name = ''Spaghetti Carbonara'', payload_prep_time = 10,
      payload_cook_time = 20, payload_servings = 4\<rparr>"

section \<open>Properties of the section handlers\<close>

lemma length_forEach_index [simp]: "length (forEach_index f xs) = length xs"
  by (simp add: forEach_index_def)

lemma nth_forEach_index [simp]: "i < length xs \<Longrightarrow> forEach_index f xs ! i = f i (xs ! i)"
  by (simp add: forEach_index_def nth_enumerate_eq)

lemma map_forEach_index_order:
  assumes "\<And>index x. g (f index x) = index + 1"
  shows "map g (forEach_index f xs) = [1..<Suc (length xs)]"
  by (rule nth_equalityI) (simp_all add: assms del: upt_Suc)

lemma filter_enumerate_neq:
  "map snd (filter (\<lambda>(index, x). index \<noteq> n + i) (enumerate n xs)) = take i xs @ drop (Suc i) xs"
proof (induction xs arbitrary: n i)
  case Nil
  then show ?case by simp
next
  case (Cons x xs)
  show ?case
  proof (cases i)
    case 0
    have "filter (\<lambda>(index, x). index \<noteq> n) (enumerate (Suc n) xs) = enumerate (Suc n) xs"
      by (rule filter_True) (auto simp: in_set_enumerate_eq)
    with 0 show ?thesis by simp
  next
    case (Suc j)
    with Cons.IH [of "Suc n" j] show ?thesis by simp
  qed
qed

lemma filter_index_neq:
  "filter_index (\<lambda>index. index \<noteq> i) xs = take i xs @ drop (Suc i) xs"
  using filter_enumerate_neq [of 0 i xs] by (simp add: filter_index_def)

lemma length_filter_index_neq:
  "i < length xs \<Longrightarrow> length (filter_index (\<lambda>index. index \<noteq> i) xs) = length xs - 1"
  by (simp add: filter_index_neq)

lemma order_length: "map f xs = [1..<Suc n] \<Longrightarrow> length xs = n"
  by (drule arg_cong [where f = length]) simp

lemma Suc_pred_length: "i < length xs \<Longrightarrow> Suc (length xs - Suc 0) = length xs"
  by simp

lemma removeIngredientSection_orders:
  "i < length secs \<Longrightarrow>
   map section_order (removeIngredientSection i secs) = [1..<length secs]"
  by (simp add: removeIngredientSection_def map_forEach_index_order
      length_filter_index_neq Let_def Suc_pred_length del: upt_Suc)

lemma removeInstructionSection_orders:
  "i < length secs \<Longrightarrow>
   map step_section_order (removeInstructionSection i secs) = [1..<length secs]"
  by (simp add: removeInstructionSection_def map_forEach_index_order
      length_filter_index_neq Let_def Suc_pred_length del: upt_Suc)

lemma removeIngredient_orders:
  assumes "i < length secs" and "j < length (ingredients (secs ! i))"
  shows "\<exists>secs'. removeIngredient i j secs = Some secs' \<and> length secs' = length secs \<and>
     map ingredient_order (ingredients (secs' ! i)) = [1..<length (ingredients (secs ! i))]"
  using assms
  by (simp add: removeIngredient_def map_forEach_index_order
      length_filter_index_neq Let_def Suc_pred_length del: upt_Suc)

lemma removeInstruction_orders:
  assumes "i < length secs" and "j < length (instructions (secs ! i))"
  shows "\<exists>secs'. removeInstruction i j secs = Some secs' \<and> length secs' = length secs \<and>
     map step_order (instructions (secs' ! i)) = [1..<length (instructions (secs ! i))]"
  using assms
  by (simp add: removeInstruction_def map_forEach_index_order
      length_filter_index_neq Let_def Suc_pred_length del: upt_Suc)

lemma nth_without:
  assumes "i < length xs" and "k < length xs - 1"
  shows "(take i xs @ drop (Suc i) xs) ! k = xs ! (if k < i then k else Suc k)"
proof (cases "k < i")
  case True
  with assms show ?thesis by (simp add: nth_append)
next
  case False
  with assms have "(take i xs @ drop (Suc i) xs) ! k = drop (Suc i) xs ! (k - i)"
    by (simp add: nth_append min_def)
  also from False assms have "\<dots> = xs ! Suc k"
    by simp
  finally show ?thesis using False by simp
qed

lemma removeIngredientSection_nth:
  assumes "i < length secs" and "k < length secs - 1"
  shows "removeIngredientSection i secs ! k =
     (secs ! (if k < i then k else Suc k))\<lparr>section_order := Suc k\<rparr>"
proof -
  from assms have "k < length (filter_index (\<lambda>index. index \<noteq> i) secs)"
    by (simp add: length_filter_index_neq)
  then show ?thesis
    using nth_without [OF assms]
    by (simp add: removeIngredientSection_def Let_def filter_index_neq)
qed

lemma removeInstructionSection_nth:
  assumes "i < length secs" and "k < length secs - 1"
  shows "removeInstructionSection i secs ! k =
     (secs ! (if k < i then k else Suc k))\<lparr>step_section_order := Suc k\<rparr>"
proof -
  from assms have "k < length (filter_index (\<lambda>index. index \<noteq> i) secs)"
    by (simp add: length_filter_index_neq)
  then show ?thesis
    using nth_without [OF assms]
    by (simp add: removeInstructionSection_def Let_def filter_index_neq)
qed

lemma renumbered_nth:
  assumes "j < length xs" and "k < length xs - 1"
  shows "forEach_index f (filter_index (\<lambda>index. index \<noteq> j) xs) ! k =
     f k (xs ! (if k < j then k else Suc k))"
proof -
  from assms have "k < length (filter_index (\<lambda>index. index \<noteq> j) xs)"
    by (simp add: length_filter_index_neq)
  then show ?thesis
    using nth_without [OF assms] by (simp add: filter_index_neq)
qed

lemma removeIngredient_result:
  assumes "i < length secs"
  shows "removeIngredient i j secs =
     Some (secs[i := (secs ! i)\<lparr>ingredients :=
       forEach_index (\<lambda>index ingredient. ingredient\<lparr>ingredient_order := index + 1\<rparr>)
         (filter_index (\<lambda>index. index \<noteq> j) (ingredients (secs ! i)))\<rparr>])"
  using assms by (simp add: removeIngredient_def Let_def)

lemma removeInstruction_result:
  assumes "i < length secs"
  shows "removeInstruction i j secs =
     Some (secs[i := (secs ! i)\<lparr>instructions :=
       forEach_index (\<lambda>index instruction. instruction\<lparr>step_order := index + 1\<rparr>)
         (filter_index (\<lambda>index. index \<noteq> j) (instructions (secs ! i)))\<rparr>])"
  using assms by (simp add: removeInstruction_def Let_def)

text \<open>
  Claim C2. In a list of sections whose order indices are \<open>1..N\<close>, removing the
  section at any position \<open>i\<close> of the list gives the \<open>N-1\<close> other sections, in their
  order and each as it was but for its order index, and those order indices are
  \<open>1..N-1\<close>: the list \<open>[1..<N]\<close>, contiguous, with no gap and no duplicate. The same
  holds for the ingredients (instructions) of section \<open>i\<close> when the item at position
  \<open>j\<close> is removed: the handler does not throw, the other sections and the title and
  order of section \<open>i\<close> are as they were, and the items of section \<open>i\<close> are the other
  items, in their order, renumbered \<open>1..M-1\<close>. All four remove handlers are covered.
\<close>

theorem remove_renumbers_contiguous:
  fixes isecs :: "ingredient_section list" and ssecs :: "instruction_section list"
  shows
  "(i < length isecs \<and> map section_order isecs = [1..<Suc n] \<longrightarrow>
      map section_order (removeIngredientSection i isecs) = [1..<n]
      \<and> length (removeIngredientSection i isecs) = n - 1
      \<and> (\<forall>k<n - 1. removeIngredientSection i isecs ! k =
            (isecs ! (if k < i then k else Suc k))\<lparr>section_order := Suc k\<rparr>))
   \<and> (i < length isecs \<and> j < length (ingredients (isecs ! i)) \<and>
      map ingredient_order (ingredients (isecs ! i)) = [1..<Suc m] \<longrightarrow>
      (\<exists>secs'. removeIngredient i j isecs = Some secs' \<and> length secs' = length isecs
         \<and> map ingredient_order (ingredients (secs' ! i)) = [1..<m]
         \<and> length (ingredients (secs' ! i)) = m - 1
         \<and> (\<forall>k<m - 1. ingredients (secs' ! i) ! k =
               (ingredients (isecs ! i) ! (if k < j then k else Suc k))
                 \<lparr>ingredient_order := Suc k\<rparr>)
         \<and> section_title (secs' ! i) = section_title (isecs ! i)
         \<and> section_order (secs' ! i) = section_order (isecs ! i)
         \<and> (\<forall>l<length isecs. l \<noteq> i \<longrightarrow> secs' ! l = isecs ! l)))
   \<and> (i < length ssecs \<and> map step_section_order ssecs = [1..<Suc n] \<longrightarrow>
      map step_section_order (removeInstructionSection i ssecs) = [1..<n]
      \<and> length (removeInstructionSection i ssecs) = n - 1
      \<and> (\<forall>k<n - 1. removeInstructionSection i ssecs ! k =
            (ssecs ! (if k < i then k else Suc k))\<lparr>step_section_order := Suc k\<rparr>))
   \<and> (i < length ssecs \<and> j < length (instructions (ssecs ! i)) \<and>
      map step_order (instructions (ssecs ! i)) = [1..<Suc m] \<longrightarrow>
      (\<exists>secs'. removeInstruction i j ssecs = Some secs' \<and> length secs' = length ssecs
         \<and> map step_order (instructions (secs' ! i)) = [1..<m]
         \<and> length (instructions (secs' ! i)) = m - 1
         \<and> (\<forall>k<m - 1. instructions (secs' ! i) ! k =
               (instructions (ssecs ! i) ! (if k < j then k else Suc k))
                 \<lparr>step_order := Suc k\<rparr>)
         \<and> step_section_title (secs' ! i) = step_section_title (ssecs ! i)
         \<and> step_section_order (secs' ! i) = step_section_order (ssecs ! i)
         \<and> (\<forall>l<length ssecs. l \<noteq> i \<longrightarrow> secs' ! l = ssecs ! l)))"
proof (intro conjI impI)
  assume a: "i < length isecs \<and> map section_order isecs = [1..<Suc n]"
  then have n: "length isecs = n" using order_length by blast
  from a n show "map section_order (removeIngredientSection i isecs) = [1..<n]"
    using removeIngredientSection_orders [of i isecs] by simp
  then have "length (map section_order (removeIngredientSection i isecs)) = length [1..<n]"
    by simp
  then show "length (removeIngredientSection i isecs) = n - 1"
    by simp
  from a n show "\<forall>k<n - 1. removeIngredientSection i isecs ! k =
            (isecs ! (if k < i then k else Suc k))\<lparr>section_order := Suc k\<rparr>"
    using removeIngredientSection_nth [of i isecs] by blast
next
  assume a: "i < length isecs \<and> j < length (ingredients (isecs ! i)) \<and>
      map ingredient_order (ingredients (isecs ! i)) = [1..<Suc m]"
  then have m: "length (ingredients (isecs ! i)) = m" using order_length by blast
  let ?f = "\<lambda>index ingredient. ingredient\<lparr>ingredient_order := index + 1\<rparr>"
  let ?items = "forEach_index ?f
      (filter_index (\<lambda>index. index \<noteq> j) (ingredients (isecs ! i)))"
  let ?secs = "isecs[i := (isecs ! i)\<lparr>ingredients := ?items\<rparr>]"
  from a have r: "removeIngredient i j isecs = Some ?secs"
    by (simp add: removeIngredient_result)
  from a have at: "?secs ! i = (isecs ! i)\<lparr>ingredients := ?items\<rparr>"
    by simp
  have o: "map ingredient_order ?items = [1..<m]"
    using a m by (simp add: map_forEach_index_order length_filter_index_neq
        Suc_pred_length del: upt_Suc)
  have l: "length ?items = m - 1"
    using a m by (simp add: length_filter_index_neq)
  have e: "\<forall>k<m - 1. ?items ! k =
      (ingredients (isecs ! i) ! (if k < j then k else Suc k))\<lparr>ingredient_order := Suc k\<rparr>"
    using a m renumbered_nth [of j "ingredients (isecs ! i)" _ ?f] by simp
  have rest: "\<forall>l<length isecs. l \<noteq> i \<longrightarrow> ?secs ! l = isecs ! l"
    by simp
  from r at o l e rest
  show "\<exists>secs'. removeIngredient i j isecs = Some secs' \<and> length secs' = length isecs
         \<and> map ingredient_order (ingredients (secs' ! i)) = [1..<m]
         \<and> length (ingredients (secs' ! i)) = m - 1
         \<and> (\<forall>k<m - 1. ingredients (secs' ! i) ! k =
               (ingredients (isecs ! i) ! (if k < j then k else Suc k))
                 \<lparr>ingredient_order := Suc k\<rparr>)
         \<and> section_title (secs' ! i) = section_title (isecs ! i)
         \<and> section_order (secs' ! i) = section_order (isecs ! i)
         \<and> (\<forall>l<length isecs. l \<noteq> i \<longrightarrow> secs' ! l = isecs ! l)"
    by simp
next
  assume a: "i < length ssecs \<and> map step_section_order ssecs = [1..<Suc n]"
  then have n: "length ssecs = n" using order_length by blast
  from a n show "map step_section_order (removeInstructionSection i ssecs) = [1..<n]"
    using removeInstructionSection_orders [of i ssecs] by simp
  then have "length (map step_section_order (removeInstructionSection i ssecs)) =
      length [1..<n]"
    by simp
  then show "length (removeInstructionSection i ssecs) = n - 1"
    by simp
  from a n show "\<forall>k<n - 1. removeInstructionSection i ssecs ! k =
            (ssecs ! (if k < i then k else Suc k))\<lparr>step_section_order := Suc k\<rparr>"
    using removeInstructionSection_nth [of i ssecs] by blast
next
  assume a: "i < length ssecs \<and> j < length (instructions (ssecs ! i)) \<and>
      map step_order (instructions (ssecs ! i)) = [1..<Suc m]"
  then have m: "length (instructions (ssecs ! i)) = m" using order_length by blast
  let ?f = "\<lambda>index instruction. instruction\<lparr>step_order := index + 1\<rparr>"
  let ?items = "forEach_index ?f
      (filter_index (\<lambda>index. index \<noteq> j) (instructions (ssecs ! i)))"
  let ?secs = "ssecs[i := (ssecs ! i)\<lparr>instructions := ?items\<rparr>]"
  from a have r: "removeInstruction i j ssecs = Some ?secs"
    by (simp add: removeInstruction_result)
  from a have at: "?secs ! i = (ssecs ! i)\<lparr>instructions := ?items\<rparr>"
    by simp
  have o: "map step_order ?items = [1..<m]"
    using a m by (simp add: map_forEach_index_order length_filter_index_neq
        Suc_pred_length del: upt_Suc)
  have l: "length ?items = m - 1"
    using a m by (simp add: length_filter_index_neq)
  have e: "\<forall>k<m - 1. ?items ! k =
      (instructions (ssecs ! i) ! (if k < j then k else Suc k))\<lparr>step_order := Suc k\<rparr>"
    using a m renumbered_nth [of j "instructions (ssecs ! i)" _ ?f] by simp
  have rest: "\<forall>l<length ssecs. l \<noteq> i \<longrightarrow> ?secs ! l = ssecs ! l"
    by simp
  from r at o l e rest
  show "\<exists>secs'. removeInstruction i j ssecs = Some secs' \<and> length secs' = length ssecs
         \<and> map step_order (instructions (secs' ! i)) = [1..<m]
         \<and> length (instructions (secs' ! i)) = m - 1
         \<and> (\<forall>k<m - 1. instructions (secs' ! i) ! k =
               (instructions (ssecs ! i) ! (if k < j then k else Suc k))
                 \<lparr>step_order := Suc k\<rparr>)
         \<and> step_section_title (secs' ! i) = step_section_title (ssecs ! i)
         \<and> step_section_order (secs' ! i) = step_section_order (ssecs ! i)
         \<and> (\<forall>l<length ssecs. l \<noteq> i \<longrightarrow> secs' ! l = ssecs ! l)"
    by simp
qed

lemma three_sections_orders:
  "map section_order three_ingredient_sections = [1..<Suc 3]"
  "map ingredient_order (ingredients (three_ingredient_sections ! 0)) = [1..<Suc 3]"
  "map step_section_order three_instruction_sections = [1..<Suc 3]"
  "map step_order (instructions (three_instruction_sections ! 0)) = [1..<Suc 3]"
  "length three_ingredient_sections = 3"
  "length (ingredients (three_ingredient_sections ! 0)) = 3"
  "length three_instruction_sections = 3"
  "length (instructions (three_instruction_sections ! 0)) = 3"
  by (simp_all add: three_ingredient_sections_def three_instruction_sections_def
      named_ingredient_def new_ingredient_def upt_rec)

theorem remove_renumbers_contiguous_witness:
  "map section_title (removeIngredientSection 0 three_ingredient_sections) =
     [''Sauce'', ''Garnish'']
   \<and> map section_order (removeIngredientSection 0 three_ingredient_sections) = [1, 2]
   \<and> (\<exists>secs'. removeIngredient 0 1 three_ingredient_sections = Some secs'
        \<and> map ingredient_name (ingredients (secs' ! 0)) = [''spaghetti'', ''cheese'']
        \<and> map ingredient_order (ingredients (secs' ! 0)) = [1, 2]
        \<and> map section_title secs' = [''Main Ingredients'', ''Sauce'', ''Garnish''])
   \<and> map step_section_title (removeInstructionSection 0 three_instruction_sections) =
     [''Cooking'', ''Plating'']
   \<and> map step_section_order (removeInstructionSection 0 three_instruction_sections) = [1, 2]
   \<and> (\<exists>secs'. removeInstruction 0 1 three_instruction_sections = Some secs'
        \<and> map instruction_step (instructions (secs' ! 0)) = [''Boil'', ''Mix'']
        \<and> map step_order (instructions (secs' ! 0)) = [1, 2])"
proof -
  have e: "removeIngredientSection 0 three_ingredient_sections =
      [(three_ingredient_sections ! 1)\<lparr>section_order := 1\<rparr>,
       (three_ingredient_sections ! 2)\<lparr>section_order := 2\<rparr>]"
    "removeInstructionSection 0 three_instruction_sections =
      [(three_instruction_sections ! 1)\<lparr>step_section_order := 1\<rparr>,
       (three_instruction_sections ! 2)\<lparr>step_section_order := 2\<rparr>]"
    "removeIngredient 0 1 three_ingredient_sections =
      Some (three_ingredient_sections[0 := (three_ingredient_sections ! 0)\<lparr>ingredients :=
        [named_ingredient ''spaghetti'' 1, named_ingredient ''cheese'' 2]\<rparr>])"
    "removeInstruction 0 1 three_instruction_sections =
      Some (three_instruction_sections[0 := (three_instruction_sections ! 0)\<lparr>instructions :=
        [\<lparr>instruction_step = ''Boil'', step_order = 1\<rparr>,
         \<lparr>instruction_step = ''Mix'', step_order = 2\<rparr>]\<rparr>])"
    by code_simp+
  have o: "map section_order (removeIngredientSection 0 three_ingredient_sections) = [1..<3]"
    "map step_section_order (removeInstructionSection 0 three_instruction_sections) = [1..<3]"
    using remove_renumbers_contiguous [of 0 three_ingredient_sections 3 1 3
        three_instruction_sections]
      three_sections_orders
    by simp_all
  have l: "[1..<3] = [1, 2::nat]"
    by (simp add: upt_rec)
  have t: "map section_title (removeIngredientSection 0 three_ingredient_sections) =
     [''Sauce'', ''Garnish'']"
    "map step_section_title (removeInstructionSection 0 three_instruction_sections) =
     [''Cooking'', ''Plating'']"
    by (unfold e) (simp_all add: three_ingredient_sections_def
        three_instruction_sections_def)
  have i: "\<exists>secs'. removeIngredient 0 1 three_ingredient_sections = Some secs'
        \<and> map ingredient_name (ingredients (secs' ! 0)) = [''spaghetti'', ''cheese'']
        \<and> map ingredient_order (ingredients (secs' ! 0)) = [1, 2]
        \<and> map section_title secs' = [''Main Ingredients'', ''Sauce'', ''Garnish'']"
    by (unfold e) (simp add: three_ingredient_sections_def named_ingredient_def
        new_ingredient_def)
  have s: "\<exists>secs'. removeInstruction 0 1 three_instruction_sections = Some secs'
        \<and> map instruction_step (instructions (secs' ! 0)) = [''Boil'', ''Mix'']
        \<and> map step_order (instructions (secs' ! 0)) = [1, 2]"
    by (unfold e) (simp add: three_instruction_sections_def)
  from o l t i s show ?thesis
    by simp
qed

lemma upt_snoc_one: "[Suc 0..<Suc n] @ [Suc n] = [Suc 0..<Suc (Suc n)]"
  by simp

text \<open>
  Claim C9. In a list of sections whose order indices are \<open>1..N\<close>, the add handler
  appends a section with order index \<open>N + 1\<close>, so the order indices become \<open>1..N+1\<close>;
  and in a section whose items have the order indices \<open>1..M\<close>, the add handler appends
  a blank item with order index \<open>M + 1\<close>, so they become \<open>1..M+1\<close>. All four add
  handlers are covered.
\<close>

theorem add_keeps_contiguous:
  fixes isecs :: "ingredient_section list" and ssecs :: "instruction_section list"
  shows
  "(map section_order isecs = [1..<Suc n] \<longrightarrow>
      addIngredientSection isecs =
        isecs @ [\<lparr>section_title = '''', section_order = n + 1,
                   ingredients = [new_ingredient 1]\<rparr>] \<and>
      map section_order (addIngredientSection isecs) = [1..<Suc (Suc n)])
   \<and> (i < length isecs \<and> map ingredient_order (ingredients (isecs ! i)) = [1..<Suc m] \<longrightarrow>
      (\<exists>secs'. addIngredient i isecs = Some secs' \<and> length secs' = length isecs \<and>
         ingredients (secs' ! i) = ingredients (isecs ! i) @ [new_ingredient (m + 1)] \<and>
         map ingredient_order (ingredients (secs' ! i)) = [1..<Suc (Suc m)]))
   \<and> (map step_section_order ssecs = [1..<Suc n] \<longrightarrow>
      addInstructionSection ssecs =
        ssecs @ [\<lparr>step_section_title = '''', step_section_order = n + 1,
                   instructions = [new_instruction 1]\<rparr>] \<and>
      map step_section_order (addInstructionSection ssecs) = [1..<Suc (Suc n)])
   \<and> (i < length ssecs \<and> map step_order (instructions (ssecs ! i)) = [1..<Suc m] \<longrightarrow>
      (\<exists>secs'. addInstruction i ssecs = Some secs' \<and> length secs' = length ssecs \<and>
         instructions (secs' ! i) = instructions (ssecs ! i) @ [new_instruction (m + 1)] \<and>
         map step_order (instructions (secs' ! i)) = [1..<Suc (Suc m)]))"
proof (intro conjI impI)
  assume a: "map section_order isecs = [1..<Suc n]"
  then have "length isecs = n" by (rule order_length)
  then show "addIngredientSection isecs =
        isecs @ [\<lparr>section_title = '''', section_order = n + 1,
                   ingredients = [new_ingredient 1]\<rparr>]"
    by (simp add: addIngredientSection_def)
  then show "map section_order (addIngredientSection isecs) = [1..<Suc (Suc n)]"
    using a by (simp del: upt_Suc add: upt_snoc_one)
next
  assume a: "i < length isecs \<and> map ingredient_order (ingredients (isecs ! i)) = [1..<Suc m]"
  then have "length (ingredients (isecs ! i)) = m" using order_length by blast
  with a show "\<exists>secs'. addIngredient i isecs = Some secs' \<and> length secs' = length isecs \<and>
         ingredients (secs' ! i) = ingredients (isecs ! i) @ [new_ingredient (m + 1)] \<and>
         map ingredient_order (ingredients (secs' ! i)) = [1..<Suc (Suc m)]"
    by (simp add: addIngredient_def Let_def new_ingredient_def)
next
  assume a: "map step_section_order ssecs = [1..<Suc n]"
  then have "length ssecs = n" by (rule order_length)
  then show "addInstructionSection ssecs =
        ssecs @ [\<lparr>step_section_title = '''', step_section_order = n + 1,
                   instructions = [new_instruction 1]\<rparr>]"
    by (simp add: addInstructionSection_def)
  then show "map step_section_order (addInstructionSection ssecs) = [1..<Suc (Suc n)]"
    using a by (simp del: upt_Suc add: upt_snoc_one)
next
  assume a: "i < length ssecs \<and> map step_order (instructions (ssecs ! i)) = [1..<Suc m]"
  then have "length (instructions (ssecs ! i)) = m" using order_length by blast
  with a show "\<exists>secs'. addInstruction i ssecs = Some secs' \<and> length secs' = length ssecs \<and>
         instructions (secs' ! i) = instructions (ssecs ! i) @ [new_instruction (m + 1)] \<and>
         map step_order (instructions (secs' ! i)) = [1..<Suc (Suc m)]"
    by (simp add: addInstruction_def Let_def new_instruction_def)
qed

theorem add_keeps_contiguous_witness:
  "map section_order (addIngredientSection initial_ingredientSections) = [1, 2]
   \<and> (\<exists>secs'. addIngredient 0 initial_ingredientSections = Some secs' \<and>
         map ingredient_order (ingredients (secs' ! 0)) = [1, 2])
   \<and> map step_section_order (addInstructionSection initial_instructionSections) = [1, 2]
   \<and> (\<exists>secs'. addInstruction 0 initial_instructionSections = Some secs' \<and>
         map step_order (instructions (secs' ! 0)) = [1, 2])"
  using add_keeps_contiguous [of initial_ingredientSections 1 0 1 initial_instructionSections]
  by (auto simp add: initial_ingredientSections_def initial_instructionSections_def
      new_ingredient_def new_instruction_def upt_rec eval_nat_numeral)

section \<open>Properties of the form validation\<close>


lemma first_reported_append:
  "first_reported (xs @ ys) = (case first_reported xs of Some m \<Rightarrow> Some m | None \<Rightarrow> first_reported ys)"
  by (cases xs) (simp_all add: first_reported_def)

lemma first_reported_simps [simp]:
  "first_reported [] = None" "first_reported (m # ms) = Some m"
  by (simp_all add: first_reported_def)

lemma check_ingredients_first:
  "check_ingredients xs = first_reported (ingredient_violations xs)"
  by (induction xs) (simp_all add: ingredient_violations_def)

lemma check_instructions_first:
  "check_instructions xs = first_reported (instruction_violations xs)"
  by (induction xs) (simp_all add: instruction_violations_def)

lemma check_ingredient_sections_first:
  "check_ingredient_sections secs = first_reported (ingredient_section_violations secs)"
proof (induction secs)
  case Nil
  show ?case by (simp add: ingredient_section_violations_def)
next
  case (Cons s secs)
  have unfold: "ingredient_section_violations (s # secs) =
      (if trim (section_title s) = []
        then [''All ingredient sections must have a title''] else []) @
      (if length (ingredients s) = 0
        then [''Each ingredient section must have at least one ingredient''] else []) @
      ingredient_violations (ingredients s) @ ingredient_section_violations secs"
    by (simp add: ingredient_section_violations_def)
  show ?case
    unfolding unfold
    by (simp add: Cons.IH first_reported_append check_ingredients_first split: option.split)
qed

lemma check_instruction_sections_first:
  "check_instruction_sections secs = first_reported (instruction_section_violations secs)"
proof (induction secs)
  case Nil
  show ?case by (simp add: instruction_section_violations_def)
next
  case (Cons s secs)
  have unfold: "instruction_section_violations (s # secs) =
      (if trim (step_section_title s) = []
        then [''All instruction sections must have a title''] else []) @
      (if length (instructions s) = 0
        then [''Each instruction section must have at least one step''] else []) @
      instruction_violations (instructions s) @ instruction_section_violations secs"
    by (simp add: instruction_section_violations_def)
  show ?case
    unfolding unfold
    by (simp add: Cons.IH first_reported_append check_instructions_first split: option.split)
qed

text \<open>
  Claim C1, as amended. \<open>validateForm\<close> fails exactly when at least one of its checks
  is violated, and then reports one message only: that of the first violated check in
  the order of the function (the basic fields in their order, then the ingredient
  sections, then the instruction sections). Later violations are not reported.
\<close>

theorem validateForm_reports_first_violation:
  "validateForm formData ingredientSections instructionSections =
     first_reported (all_violations formData ingredientSections instructionSections)"
  unfolding validateForm_def all_violations_def
  by (simp add: first_reported_append check_ingredient_sections_first
      check_instruction_sections_first split: option.split)

lemma two_violations_form_fields:
  "trim '' '' = []"
  "trim ''Classic'' = ''Classic''"
  "StringToNumber ''10'' = Decimal 10 0"
  "StringToNumber ''20'' = Decimal 20 0"
  "StringToNumber ''0'' = Decimal 0 0"
  "ingredient_section_violations filled_ingredientSections = []"
  "instruction_section_violations filled_instructionSections = []"
  by code_simp+

lemma two_violations_form_violations:
  "all_violations two_violations_form filled_ingredientSections filled_instructionSections =
     [''Recipe name is required'', ''Number of servings must be at least 1'']"
  by (simp add: all_violations_def two_violations_form_def carbonara_form_def
      two_violations_form_fields string_less_0_def string_less_1_def number_less_0_def
      number_less_1_def)

theorem validateForm_reports_first_violation_witness:
  "validateForm two_violations_form filled_ingredientSections filled_instructionSections =
     Some ''Recipe name is required''"
  using validateForm_reports_first_violation
    [of two_violations_form filled_ingredientSections filled_instructionSections]
  by (simp add: two_violations_form_violations)

lemma edge_fields:
  "trim [CHR 0xA0] = []"
  "trim ''Spaghetti Carbonara'' = ''Spaghetti Carbonara''"
  "StringToNumber ''-1e-400'' = Decimal (- 1) (- 400)"
  "StringToNumber ''4'' = Decimal 4 0"
  "check_ingredient_sections filled_ingredientSections = None"
  "check_instruction_sections filled_instructionSections = None"
  by code_simp+

text \<open>
  Two inputs at the edges of the checks: a recipe name that is one no-break space is
  blank, and a prep time of \<open>-1e-400\<close>, which rounds to \<open>-0\<close>, is not negative.
\<close>

lemma validateForm_edge_inputs:
  "validateForm (carbonara_form\<lparr>recipe_name := [CHR 0xA0]\<rparr>)
     filled_ingredientSections filled_instructionSections = Some ''Recipe name is required''"
  "validateForm (carbonara_form\<lparr>prep_time := ''-1e-400''\<rparr>)
     filled_ingredientSections filled_instructionSections = None"
  by (simp_all add: validateForm_def carbonara_form_def two_violations_form_fields
      edge_fields string_less_0_def string_less_1_def number_less_0_def number_less_1_def)

text \<open>
  Claim C1 as stated fails: with a blank recipe name and 0 servings two checks are
  violated, and the one message reported names the recipe name only.
\<close>

theorem validateForm_enumerates_all_counterexample:
  "all_violations two_violations_form filled_ingredientSections filled_instructionSections =
     [''Recipe name is required'', ''Number of servings must be at least 1'']
   \<and> validateForm two_violations_form filled_ingredientSections filled_instructionSections =
     Some ''Recipe name is required''
   \<and> \<not> set (all_violations two_violations_form filled_ingredientSections
             filled_instructionSections)
       \<subseteq> set_option (validateForm two_violations_form filled_ingredientSections
             filled_instructionSections)"
proof -
  have "validateForm two_violations_form filled_ingredientSections filled_instructionSections =
     Some ''Recipe name is required''"
    by (simp add: validateForm_def two_violations_form_def carbonara_form_def
        two_violations_form_fields)
  then show ?thesis
    by (simp add: two_violations_form_violations)
qed

section \<open>Properties of the query parameters\<close>

lemma map_of_spread_filters:
  "distinct (map fst filters) \<Longrightarrow>
   map_of (spread_filters filters obj) k =
     (case map_of filters k of Some v \<Rightarrow> Some (JString v) | None \<Rightarrow> map_of obj k)"
  unfolding spread_filters_def
proof (induction filters arbitrary: obj)
  case Nil
  show ?case by simp
next
  case (Cons p filters)
  obtain k' v' where p: "p = (k', v')" by (cases p)
  from Cons.prems p have d: "distinct (map fst filters)" and n: "k' \<notin> fst ` set filters"
    by auto
  from n have "map_of filters k' = None" by (simp add: map_of_eq_None_iff)
  then show ?case
    using Cons.IH [OF d, of "AList.update k' (JString v') obj"] p
    by (auto simp add: update_conv' split: option.split)
qed

lemma map_of_spread_search:
  "map_of (spread_search searchTerm obj) k =
     (if k = ''search'' \<and> searchTerm \<noteq> [] then Some (JString searchTerm) else map_of obj k)"
  by (simp add: spread_search_def update_conv')

lemma map_of_fold_delete:
  "map_of (fold (\<lambda>key params.
             if map_of params key = Some e then AList.delete key params else params) ks ps) k =
     (if k \<in> set ks \<and> map_of ps k = Some e then None else map_of ps k)"
proof (induction ks arbitrary: ps)
  case Nil
  show ?case by simp
next
  case (Cons a ks)
  show ?case
    by (simp add: Cons.IH delete_conv')
qed

lemma map_of_remove_empty_filters:
  "map_of (remove_empty_filters params) k =
     (if map_of params k = Some (JString []) then None else map_of params k)"
  unfolding remove_empty_filters_def map_of_fold_delete
  by (auto simp add: map_of_eq_None_iff [symmetric])

lemma map_of_fetchRecipes_params:
  assumes "distinct (map fst filters)" and "''search'' \<notin> fst ` set filters"
  shows "map_of (fetchRecipes_params filters searchTerm) k =
     (if k = ''search'' then (if searchTerm = [] then None else Some (JString searchTerm))
      else case map_of filters k of
             None \<Rightarrow> None
           | Some v \<Rightarrow> if v = [] then None else Some (JString v))"
proof -
  from assms(2) have "map_of filters ''search'' = None"
    by (simp add: map_of_eq_None_iff)
  then show ?thesis
    unfolding fetchRecipes_params_def
    by (simp add: map_of_remove_empty_filters map_of_spread_search
        map_of_spread_filters [OF assms(1)] split: option.split)
qed

lemma map_of_fetchMyRecipes_params:
  assumes "distinct (map fst filters)" and "''search'' \<notin> fst ` set filters"
    and "''uploaded_by'' \<notin> fst ` set filters"
  shows "map_of (fetchMyRecipes_params filters user_id searchTerm) k =
     (if k = ''search'' then (if searchTerm = [] then None else Some (JString searchTerm))
      else if k = ''uploaded_by''
      then (if user_id = JString [] then None else Some user_id)
      else case map_of filters k of
             None \<Rightarrow> None
           | Some v \<Rightarrow> if v = [] then None else Some (JString v))"
proof -
  from assms(2,3) have "map_of filters ''search'' = None"
    and "map_of filters ''uploaded_by'' = None"
    by (simp_all add: map_of_eq_None_iff)
  then show ?thesis
    unfolding fetchMyRecipes_params_def
    by (simp add: map_of_remove_empty_filters map_of_spread_search update_conv'
        map_of_spread_filters [OF assms(1)] split: option.split)
qed

text \<open>
  The filter states the pages reach keep the four facet names as their keys: the select
  boxes call \<open>handleFilterChange\<close> with one of these names.
\<close>

lemma filter_state_keys:
  "map fst initial_filters =
     [''course_type'', ''recipe_type'', ''primary_protein'', ''ethnic_style'']"
  "filterName \<in> set (map fst prev) \<Longrightarrow>
     map fst (handleFilterChange filterName v prev) = map fst prev"
  by (simp_all add: initial_filters_def handleFilterChange_def update_keys)

text \<open>
  Claim C7. The filter state is an object whose keys are facet names (distinct, and
  neither \<open>search\<close> nor \<open>uploaded_by\<close>). In the parameters that \<open>fetchRecipes\<close> and
  \<open>fetchMyRecipes\<close> send, no key has the value \<open>''\<close>; a filter whose value is \<open>''\<close> is
  absent; a filter with a non-empty value is present with that value; and \<open>search\<close> is
  present, with the search term, exactly when the term is not empty.
\<close>

theorem query_params_omit_empty:
  assumes "distinct (map fst filters)" and "''search'' \<notin> fst ` set filters"
    and "''uploaded_by'' \<notin> fst ` set filters"
  shows "(\<forall>k. map_of (fetchRecipes_params filters searchTerm) k \<noteq> Some (JString []))
    \<and> (\<forall>k v. map_of filters k = Some v \<longrightarrow>
          map_of (fetchRecipes_params filters searchTerm) k =
            (if v = [] then None else Some (JString v)))
    \<and> map_of (fetchRecipes_params filters searchTerm) ''search'' =
          (if searchTerm = [] then None else Some (JString searchTerm))
    \<and> (\<forall>k. map_of (fetchMyRecipes_params filters user_id searchTerm) k \<noteq> Some (JString []))
    \<and> (\<forall>k v. map_of filters k = Some v \<longrightarrow>
          map_of (fetchMyRecipes_params filters user_id searchTerm) k =
            (if v = [] then None else Some (JString v)))
    \<and> map_of (fetchMyRecipes_params filters user_id searchTerm) ''search'' =
          (if searchTerm = [] then None else Some (JString searchTerm))"
proof -
  have absent: "map_of filters ''search'' = None" "map_of filters ''uploaded_by'' = None"
    using assms(2,3) by (simp_all add: map_of_eq_None_iff)
  have A: "\<forall>k. map_of (fetchRecipes_params filters searchTerm) k \<noteq> Some (JString [])"
    by (simp add: map_of_fetchRecipes_params [OF assms(1,2)] split: option.split)
  have B: "\<forall>k v. map_of filters k = Some v \<longrightarrow>
          map_of (fetchRecipes_params filters searchTerm) k =
            (if v = [] then None else Some (JString v))"
    using absent by (auto simp add: map_of_fetchRecipes_params [OF assms(1,2)])
  have C: "map_of (fetchRecipes_params filters searchTerm) ''search'' =
          (if searchTerm = [] then None else Some (JString searchTerm))"
    by (simp add: map_of_fetchRecipes_params [OF assms(1,2)])
  have D: "\<forall>k. map_of (fetchMyRecipes_params filters user_id searchTerm) k
      \<noteq> Some (JString [])"
    by (simp add: map_of_fetchMyRecipes_params [OF assms] split: option.split)
  have E: "\<forall>k v. map_of filters k = Some v \<longrightarrow>
          map_of (fetchMyRecipes_params filters user_id searchTerm) k =
            (if v = [] then None else Some (JString v))"
    using absent by (auto simp add: map_of_fetchMyRecipes_params [OF assms])
  have F: "map_of (fetchMyRecipes_params filters user_id searchTerm) ''search'' =
          (if searchTerm = [] then None else Some (JString searchTerm))"
    by (simp add: map_of_fetchMyRecipes_params [OF assms])
  from A B C D E F show ?thesis by blast
qed

lemma dinner_filters_eq:
  "dinner_filters =
     [(''course_type'', ''Dinner''), (''recipe_type'', []),
      (''primary_protein'', ''Chicken''), (''ethnic_style'', [])]"
  by code_simp

theorem query_params_omit_empty_witness:
  "fetchRecipes_params dinner_filters ''soup'' =
     [(''course_type'', JString ''Dinner''), (''primary_protein'', JString ''Chicken''),
      (''search'', JString ''soup'')]
   \<and> map_of (fetchRecipes_params dinner_filters ''soup'') ''recipe_type'' = None
   \<and> map_of (fetchRecipes_params dinner_filters ''soup'') ''course_type''
       = Some (JString ''Dinner'')
   \<and> map_of (fetchRecipes_params dinner_filters ''soup'') ''search'' = Some (JString ''soup'')
   \<and> map_of (fetchMyRecipes_params dinner_filters (JNumber 7) []) ''search'' = None
   \<and> map_of (fetchMyRecipes_params dinner_filters (JNumber 7) []) ''ethnic_style'' = None"
proof -
  have d: "distinct (map fst dinner_filters)"
    and s: "''search'' \<notin> fst ` set dinner_filters"
    and u: "''uploaded_by'' \<notin> fst ` set dinner_filters"
    by (simp_all add: dinner_filters_eq)
  have l: "map_of dinner_filters ''recipe_type'' = Some []"
    "map_of dinner_filters ''course_type'' = Some ''Dinner''"
    "map_of dinner_filters ''ethnic_style'' = Some []"
    by (simp_all add: dinner_filters_eq)
  have e: "fetchRecipes_params dinner_filters ''soup'' =
     [(''course_type'', JString ''Dinner''), (''primary_protein'', JString ''Chicken''),
      (''search'', JString ''soup'')]"
    by code_simp
  show ?thesis
    using query_params_omit_empty [OF d s u, of "''soup''" "JNumber 7"]
      query_params_omit_empty [OF d s u, of "[]" "JNumber 7"] l e
    by simp
qed

section \<open>Properties of the comment section\<close>

text \<open>
  Claim C8. The comment form is rendered only for an authenticated user. A submit whose
  trimmed text is empty (a text of white space only, a no-break space included) issues no
  request and sets the error message; any other submit issues exactly one create request,
  first, and its text is the trimmed input.
\<close>

theorem comment_create_guarded:
  "(CommentForm \<in> set (render recipeId isAuthenticated st) \<longrightarrow> isAuthenticated)
   \<and> (trim (commentText st) = [] \<longrightarrow>
        handleSubmit recipeId created got st = (st\<lparr>error := ''Comment cannot be empty.''\<rparr>, []))
   \<and> (trim (commentText st) \<noteq> [] \<longrightarrow>
        (\<exists>rest. snd (handleSubmit recipeId created got st) =
            CreateComment recipeId (trim (commentText st)) # rest
          \<and> (\<forall>r t. CreateComment r t \<notin> set rest)))"
proof (intro conjI impI)
  assume "CommentForm \<in> set (render recipeId isAuthenticated st)"
  then show isAuthenticated
    by (auto simp add: render_def split: if_splits)
next
  assume "trim (commentText st) = []"
  then show "handleSubmit recipeId created got st =
      (st\<lparr>error := ''Comment cannot be empty.''\<rparr>, [])"
    by (simp add: handleSubmit_def)
next
  assume "trim (commentText st) \<noteq> []"
  then show "\<exists>rest. snd (handleSubmit recipeId created got st) =
            CreateComment recipeId (trim (commentText st)) # rest
          \<and> (\<forall>r t. CreateComment r t \<notin> set rest)"
    by (cases created) (simp_all add: handleSubmit_def fetchComments_def Let_def)
qed

theorem comment_create_guarded_witness:
  "render (JNumber 5) True (initial_comment_section\<lparr>loading := False\<rparr>)
     = [Heading 0, CommentForm, NoComments]
   \<and> render (JNumber 5) False (initial_comment_section\<lparr>loading := False\<rparr>)
     = [Heading 0, LoginPrompt, NoComments]
   \<and> handleSubmit (JNumber 5) (Resolved ()) (Resolved (CommentArray []))
        (initial_comment_section\<lparr>commentText := [CHR 0xA0]\<rparr>)
     = (initial_comment_section\<lparr>commentText := [CHR 0xA0], error := ''Comment cannot be empty.''\<rparr>, [])
   \<and> snd (handleSubmit (JNumber 5) (Resolved ()) (Resolved (CommentArray []))
        (initial_comment_section\<lparr>commentText := '' Nice! ''\<rparr>))
     = [CreateComment (JNumber 5) ''Nice!'', GetComments (JNumber 5)]"
proof -
  have t: "trim [CHR 0xA0] = []" "trim '' Nice! '' = ''Nice!''"
    by code_simp+
  show ?thesis
    using comment_create_guarded [of "JNumber 5" True
        "initial_comment_section\<lparr>loading := False\<rparr>" "Resolved ()" "Resolved (CommentArray [])"]
      comment_create_guarded [of "JNumber 5" False
        "initial_comment_section\<lparr>commentText := [CHR 0xA0]\<rparr>" "Resolved ()"
        "Resolved (CommentArray [])"]
      comment_create_guarded [of "JNumber 5" False
        "initial_comment_section\<lparr>commentText := '' Nice! ''\<rparr>" "Resolved ()"
        "Resolved (CommentArray [])"]
    by (simp add: t initial_comment_section_def render_def handleSubmit_def
        fetchComments_def Let_def)
qed

section \<open>Properties of the API client\<close>

lemma retry_request_interceptor [simp]: "retry (request_interceptor w req) = retry req"
  by (simp add: request_interceptor_def Let_def split: option.split)

lemma url_request_interceptor [simp]: "url (request_interceptor w req) = url req"
  by (simp add: request_interceptor_def Let_def split: option.split)

lemma api_retried:
  "retry req \<Longrightarrow>
   api srv req w =
     (let w1 = w\<lparr>network := network w @ [ApiCall (request_interceptor w req)]\<rparr>;
          rep = srv (network w1)
      in if resolves rep then (Success rep, w1) else (Failure (AxiosError rep), w1))"
  by (subst api.simps) (simp add: Let_def)

lemma api_resolved:
  "resolves (first_reply srv req w) \<Longrightarrow>
   api srv req w =
     (Success (first_reply srv req w),
      w\<lparr>network := network w @ [ApiCall (request_interceptor w req)]\<rparr>)"
  by (subst api.simps) (simp add: Let_def first_reply_def)

lemma api_other_error:
  "\<not> resolves (first_reply srv req w) \<Longrightarrow>
   response_status (first_reply srv req w) \<noteq> Some 401 \<or> retry req \<Longrightarrow>
   api srv req w =
     (Failure (AxiosError (first_reply srv req w)),
      w\<lparr>network := network w @ [ApiCall (request_interceptor w req)]\<rparr>)"
  by (subst api.simps) (auto simp add: Let_def first_reply_def)

lemma api_no_session:
  "\<not> resolves (first_reply srv req w) \<Longrightarrow>
   response_status (first_reply srv req w) = Some 401 \<Longrightarrow> \<not> retry req \<Longrightarrow>
   \<not> truthy_item (getItem ''refresh_token'' w) \<Longrightarrow>
   api srv req w =
     (Failure (AxiosError (first_reply srv req w)),
      set_location_href ''/login?reason=no_session''
        (clear_session (w\<lparr>network := network w @ [ApiCall (request_interceptor w req)]\<rparr>)))"
  by (subst api.simps) (simp add: Let_def first_reply_def getItem_def)

lemma api_session_expired:
  "\<not> resolves (first_reply srv req w) \<Longrightarrow>
   response_status (first_reply srv req w) = Some 401 \<Longrightarrow> \<not> retry req \<Longrightarrow>
   truthy_item (getItem ''refresh_token'' w) \<Longrightarrow>
   refresh_access (refresh_reply srv req w) = Inl e \<Longrightarrow>
   api srv req w =
     (Failure e,
      set_location_href ''/login?reason=session_expired''
        (clear_session (w\<lparr>network := network w @
           [ApiCall (request_interceptor w req),
            RefreshCall (the (getItem ''refresh_token'' w))]\<rparr>)))"
  by (subst api.simps) (simp add: Let_def first_reply_def refresh_reply_def getItem_def)

lemma api_refreshed:
  "\<not> resolves (first_reply srv req w) \<Longrightarrow>
   response_status (first_reply srv req w) = Some 401 \<Longrightarrow> \<not> retry req \<Longrightarrow>
   truthy_item (getItem ''refresh_token'' w) \<Longrightarrow>
   refresh_access (refresh_reply srv req w) = Inr access \<Longrightarrow>
   api srv req w =
     api srv
       ((request_interceptor w req)
          \<lparr>retry := True, authorization := Some (''Bearer '' @ to_string access)\<rparr>)
       (setItem ''access_token'' (to_string access)
          (w\<lparr>network := network w @
             [ApiCall (request_interceptor w req),
              RefreshCall (the (getItem ''refresh_token'' w))]\<rparr>))"
  by (subst api.simps) (simp add: Let_def first_reply_def refresh_reply_def getItem_def)


lemma unauthorized_not_resolved: "response_status rep = Some 401 \<Longrightarrow> \<not> resolves rep"
  by (cases rep) (simp_all add: response_status_def resolves_def)

lemma calls_made_retried:
  "retry req \<Longrightarrow> calls_made srv req w = [ApiCall (request_interceptor w req)]"
  by (simp add: calls_made_def api_retried Let_def)

lemma calls_made_resolved:
  "resolves (first_reply srv req w) \<Longrightarrow>
   calls_made srv req w = [ApiCall (request_interceptor w req)]"
  by (simp add: calls_made_def api_resolved)

lemma calls_made_other_error:
  "\<not> resolves (first_reply srv req w) \<Longrightarrow>
   response_status (first_reply srv req w) \<noteq> Some 401 \<Longrightarrow>
   calls_made srv req w = [ApiCall (request_interceptor w req)]"
  by (simp add: calls_made_def api_other_error)

lemma network_clear_session [simp]: "network (clear_session w) = network w"
  by (simp add: clear_session_def removeItem_def)

lemma network_set_location_href [simp]: "network (set_location_href h w) = network w"
  by (simp add: set_location_href_def)

lemma network_setItem [simp]: "network (setItem k v w) = network w"
  by (simp add: setItem_def)

lemma calls_made_no_session:
  "response_status (first_reply srv req w) = Some 401 \<Longrightarrow> \<not> retry req \<Longrightarrow>
   \<not> truthy_item (getItem ''refresh_token'' w) \<Longrightarrow>
   calls_made srv req w = [ApiCall (request_interceptor w req)]"
  by (simp add: calls_made_def api_no_session unauthorized_not_resolved)

lemma calls_made_session_expired:
  "response_status (first_reply srv req w) = Some 401 \<Longrightarrow> \<not> retry req \<Longrightarrow>
   truthy_item (getItem ''refresh_token'' w) \<Longrightarrow>
   refresh_access (refresh_reply srv req w) = Inl e \<Longrightarrow>
   calls_made srv req w =
     [ApiCall (request_interceptor w req), RefreshCall (the (getItem ''refresh_token'' w))]"
  by (simp add: calls_made_def api_session_expired unauthorized_not_resolved)

lemma authorization_retried:
  "authorization
     (request_interceptor (setItem ''access_token'' t w)
        (c\<lparr>retry := True, authorization := Some (''Bearer '' @ t)\<rparr>)) =
   Some (''Bearer '' @ t)"
  by (simp add: request_interceptor_def getItem_def setItem_def Let_def)

lemma calls_made_refreshed:
  assumes "response_status (first_reply srv req w) = Some 401" and "\<not> retry req"
    and "truthy_item (getItem ''refresh_token'' w)"
    and "refresh_access (refresh_reply srv req w) = Inr access"
  shows "\<exists>again. calls_made srv req w =
       [ApiCall (request_interceptor w req), RefreshCall (the (getItem ''refresh_token'' w)),
        ApiCall again]
     \<and> retry again \<and> url again = url req
     \<and> authorization again = Some (''Bearer '' @ to_string access)"
proof -
  let ?w3 = "setItem ''access_token'' (to_string access)
          (w\<lparr>network := network w @
             [ApiCall (request_interceptor w req),
              RefreshCall (the (getItem ''refresh_token'' w))]\<rparr>)"
  let ?c = "(request_interceptor w req)
          \<lparr>retry := True, authorization := Some (''Bearer '' @ to_string access)\<rparr>"
  have "api srv req w = api srv ?c ?w3"
    using assms by (simp add: api_refreshed unauthorized_not_resolved)
  then have "calls_made srv req w =
       [ApiCall (request_interceptor w req), RefreshCall (the (getItem ''refresh_token'' w)),
        ApiCall (request_interceptor ?w3 ?c)]"
    by (simp add: calls_made_def api_retried Let_def)
  moreover have "authorization (request_interceptor ?w3 ?c) =
      Some (''Bearer '' @ to_string access)"
    by (rule authorization_retried)
  ultimately show ?thesis by simp
qed

text \<open>
  Claim C3, as amended. No call of \<open>api\<close> makes more than one refresh attempt, and a
  request already marked as retried makes none: it is sent and that is all. A request
  not yet marked whose reply is a 401 makes exactly one refresh attempt when a refresh
  token is stored, and is then sent again exactly once, marked, with the new token, if
  that refresh succeeded, and not at all if it failed. When no refresh token is stored
  it makes no refresh attempt and is not sent again.
\<close>

theorem refresh_once_when_token_stored:
  "refresh_attempts (calls_made srv req w) \<le> 1
   \<and> (retry req \<longrightarrow> calls_made srv req w = [ApiCall (request_interceptor w req)])
   \<and> (\<not> retry req \<and> response_status (first_reply srv req w) = Some 401
        \<and> truthy_item (getItem ''refresh_token'' w) \<longrightarrow>
        refresh_attempts (calls_made srv req w) = 1
        \<and> (case refresh_access (refresh_reply srv req w) of
              Inr access \<Rightarrow>
                (\<exists>again. calls_made srv req w =
                    [ApiCall (request_interceptor w req),
                     RefreshCall (the (getItem ''refresh_token'' w)), ApiCall again]
                  \<and> retry again \<and> url again = url req
                  \<and> authorization again = Some (''Bearer '' @ to_string access))
            | Inl e \<Rightarrow>
                calls_made srv req w =
                  [ApiCall (request_interceptor w req),
                   RefreshCall (the (getItem ''refresh_token'' w))]))
   \<and> (\<not> retry req \<and> response_status (first_reply srv req w) = Some 401
        \<and> \<not> truthy_item (getItem ''refresh_token'' w) \<longrightarrow>
        calls_made srv req w = [ApiCall (request_interceptor w req)])"
proof -
  have shape: "calls_made srv req w = [ApiCall (request_interceptor w req)]
      \<or> calls_made srv req w =
          [ApiCall (request_interceptor w req), RefreshCall (the (getItem ''refresh_token'' w))]
      \<or> (\<exists>again. calls_made srv req w =
          [ApiCall (request_interceptor w req), RefreshCall (the (getItem ''refresh_token'' w)),
           ApiCall again])"
  proof (cases "response_status (first_reply srv req w) = Some 401 \<and> \<not> retry req")
    case False
    then show ?thesis
      using calls_made_retried [of req srv w] calls_made_resolved [of srv req w]
        calls_made_other_error [of srv req w]
      by blast
  next
    case True
    show ?thesis
    proof (cases "truthy_item (getItem ''refresh_token'' w)")
      case False
      with True show ?thesis by (simp add: calls_made_no_session)
    next
      case tok: True
      show ?thesis
      proof (cases "refresh_access (refresh_reply srv req w)")
        case (Inl e)
        with True tok show ?thesis by (simp add: calls_made_session_expired)
      next
        case (Inr access)
        with True tok calls_made_refreshed [of srv req w access] show ?thesis by blast
      qed
    qed
  qed
  have A: "refresh_attempts (calls_made srv req w) \<le> 1"
    using shape by (auto simp add: refresh_attempts_def)
  have B: "retry req \<longrightarrow> calls_made srv req w = [ApiCall (request_interceptor w req)]"
    by (simp add: calls_made_retried)
  have C: "\<not> retry req \<and> response_status (first_reply srv req w) = Some 401
        \<and> truthy_item (getItem ''refresh_token'' w) \<longrightarrow>
        refresh_attempts (calls_made srv req w) = 1
        \<and> (case refresh_access (refresh_reply srv req w) of
              Inr access \<Rightarrow>
                (\<exists>again. calls_made srv req w =
                    [ApiCall (request_interceptor w req),
                     RefreshCall (the (getItem ''refresh_token'' w)), ApiCall again]
                  \<and> retry again \<and> url again = url req
                  \<and> authorization again = Some (''Bearer '' @ to_string access))
            | Inl e \<Rightarrow>
                calls_made srv req w =
                  [ApiCall (request_interceptor w req),
                   RefreshCall (the (getItem ''refresh_token'' w))])"
  proof (intro impI, elim conjE)
    assume a: "\<not> retry req" "response_status (first_reply srv req w) = Some 401"
      "truthy_item (getItem ''refresh_token'' w)"
    show "refresh_attempts (calls_made srv req w) = 1
        \<and> (case refresh_access (refresh_reply srv req w) of
              Inr access \<Rightarrow>
                (\<exists>again. calls_made srv req w =
                    [ApiCall (request_interceptor w req),
                     RefreshCall (the (getItem ''refresh_token'' w)), ApiCall again]
                  \<and> retry again \<and> url again = url req
                  \<and> authorization again = Some (''Bearer '' @ to_string access))
            | Inl e \<Rightarrow>
                calls_made srv req w =
                  [ApiCall (request_interceptor w req),
                   RefreshCall (the (getItem ''refresh_token'' w))])"
    proof (cases "refresh_access (refresh_reply srv req w)")
      case (Inl e)
      with a show ?thesis
        by (simp add: calls_made_session_expired refresh_attempts_def)
    next
      case (Inr access)
      with a calls_made_refreshed [of srv req w access] show ?thesis
        by (auto simp add: refresh_attempts_def)
    qed
  qed
  have D: "\<not> retry req \<and> response_status (first_reply srv req w) = Some 401
        \<and> \<not> truthy_item (getItem ''refresh_token'' w) \<longrightarrow>
        calls_made srv req w = [ApiCall (request_interceptor w req)]"
    by (simp add: calls_made_no_session)
  from A B C D show ?thesis by blast
qed


lemma expired_access_run:
  "\<not> retry get_recipes"
  "response_status (first_reply expired_access_server get_recipes signed_in_world) = Some 401"
  "truthy_item (getItem ''refresh_token'' signed_in_world)"
  "refresh_access (refresh_reply expired_access_server get_recipes signed_in_world) =
     Inr (JString ''a2'')"
  by code_simp+

theorem refresh_once_when_token_stored_witness:
  "refresh_attempts (calls_made expired_access_server get_recipes signed_in_world) = 1
   \<and> (\<exists>again. calls_made expired_access_server get_recipes signed_in_world =
         [ApiCall (request_interceptor signed_in_world get_recipes), RefreshCall ''r1'',
          ApiCall again]
       \<and> retry again \<and> authorization again = Some ''Bearer a2'')
   \<and> calls_made always_401 (get_recipes\<lparr>retry := True\<rparr>) signed_in_world =
       [ApiCall (request_interceptor signed_in_world (get_recipes\<lparr>retry := True\<rparr>))]"
proof -
  have t: "the (getItem ''refresh_token'' signed_in_world) = ''r1''"
    by code_simp
  show ?thesis
    using refresh_once_when_token_stored [of expired_access_server get_recipes signed_in_world]
      refresh_once_when_token_stored [of always_401 "get_recipes\<lparr>retry := True\<rparr>"
        signed_in_world]
      expired_access_run t
    by auto
qed

text \<open>
  Claim C3 as stated fails: on a page with no stored refresh token, a request whose reply
  is a 401 is sent once and no refresh is attempted.
\<close>

theorem refresh_exactly_once_counterexample:
  "\<not> retry get_recipes
   \<and> response_status (first_reply always_401 get_recipes fresh_world) = Some 401
   \<and> refresh_attempts (calls_made always_401 get_recipes fresh_world) = 0
   \<and> requests_sent (calls_made always_401 get_recipes fresh_world) = 1"
  by code_simp

section \<open>Properties of the authentication service\<close>

lemma localStorage_removeItem [simp]:
  "localStorage (removeItem k w) = (localStorage w)(k := None)"
  by (simp add: removeItem_def)

text \<open>
  Claim C10. After \<open>authService.logout\<close>, in either version of the service, the entries
  \<open>access_token\<close>, \<open>refresh_token\<close> and \<open>user\<close> are gone from local storage, whatever
  was stored before and whatever the server answers: with no refresh token stored no
  request is made, and a request that fails does not stop the removal.
\<close>

theorem logout_clears_storage:
  "localStorage (authService_logout srv w) ''access_token'' = None
   \<and> localStorage (authService_logout srv w) ''refresh_token'' = None
   \<and> localStorage (authService_logout srv w) ''user'' = None
   \<and> localStorage (authService_logout_v1 srv w) ''access_token'' = None
   \<and> localStorage (authService_logout_v1 srv w) ''refresh_token'' = None
   \<and> localStorage (authService_logout_v1 srv w) ''user'' = None"
  by (simp add: authService_logout_def authService_logout_v1_def clearCurrentUser_def
      USER_KEY_def ACCESS_KEY_def REFRESH_KEY_def Let_def)

theorem logout_clears_storage_witness:
  "fst (api always_401 (logout_request ''r1'') signed_in_world) = Failure (AxiosError (Response 401 JNull))
   \<and> localStorage (authService_logout always_401 signed_in_world) ''access_token'' = None
   \<and> localStorage (authService_logout always_401 signed_in_world) ''refresh_token'' = None
   \<and> localStorage (authService_logout always_401 signed_in_world) ''user'' = None
   \<and> network (authService_logout always_401 fresh_world) = []
   \<and> localStorage (authService_logout always_401 fresh_world) ''user'' = None"
proof -
  have "fst (api always_401 (logout_request ''r1'') signed_in_world) = Failure (AxiosError (Response 401 JNull))"
    and "network (authService_logout always_401 fresh_world) = []"
    by code_simp+
  then show ?thesis
    using logout_clears_storage [of always_401 signed_in_world]
      logout_clears_storage [of always_401 fresh_world]
    by simp
qed

section \<open>Properties of the forced logouts\<close>

lemma session_cleared_clear_session [simp]:
  "session_cleared (localStorage (clear_session w))"
  by (simp add: session_cleared_def clear_session_def)

lemma navigations_clear_session [simp]: "navigations (clear_session w) = navigations w"
  by (simp add: clear_session_def removeItem_def)

lemma navigations_setItem [simp]: "navigations (setItem k v w) = navigations w"
  by (simp add: setItem_def)

lemma navigations_removeItem [simp]: "navigations (removeItem k w) = navigations w"
  by (simp add: removeItem_def)

lemma navigations_made_retried: "retry req \<Longrightarrow> navigations_made srv req w = []"
  by (simp add: navigations_made_def api_retried Let_def)

lemma navigations_made_resolved:
  "resolves (first_reply srv req w) \<Longrightarrow> navigations_made srv req w = []"
  by (simp add: navigations_made_def api_resolved)

lemma navigations_made_other_error:
  "\<not> resolves (first_reply srv req w) \<Longrightarrow>
   response_status (first_reply srv req w) \<noteq> Some 401 \<Longrightarrow>
   navigations_made srv req w = []"
  by (simp add: navigations_made_def api_other_error)

lemma navigations_made_no_session:
  "response_status (first_reply srv req w) = Some 401 \<Longrightarrow> \<not> retry req \<Longrightarrow>
   \<not> truthy_item (getItem ''refresh_token'' w) \<Longrightarrow>
   \<exists>store. navigations_made srv req w = [(''/login?reason=no_session'', store)]
     \<and> session_cleared store"
  by (simp add: navigations_made_def api_no_session unauthorized_not_resolved
      set_location_href_def)

lemma navigations_made_session_expired:
  "response_status (first_reply srv req w) = Some 401 \<Longrightarrow> \<not> retry req \<Longrightarrow>
   truthy_item (getItem ''refresh_token'' w) \<Longrightarrow>
   refresh_access (refresh_reply srv req w) = Inl e \<Longrightarrow>
   \<exists>store. navigations_made srv req w = [(''/login?reason=session_expired'', store)]
     \<and> session_cleared store"
  by (simp add: navigations_made_def api_session_expired unauthorized_not_resolved
      set_location_href_def)

lemma navigations_made_refreshed:
  "response_status (first_reply srv req w) = Some 401 \<Longrightarrow> \<not> retry req \<Longrightarrow>
   truthy_item (getItem ''refresh_token'' w) \<Longrightarrow>
   refresh_access (refresh_reply srv req w) = Inr access \<Longrightarrow>
   navigations_made srv req w = []"
  by (simp add: navigations_made_def api_refreshed unauthorized_not_resolved api_retried Let_def)

lemma navigations_api_extends:
  "navigations (snd (api srv req w)) = navigations w @ navigations_made srv req w"
proof -
  have "\<exists>new. navigations (snd (api srv req w)) = navigations w @ new"
  proof (cases "response_status (first_reply srv req w) = Some 401 \<and> \<not> retry req")
    case False
    then consider "retry req" | "resolves (first_reply srv req w)"
      | "\<not> resolves (first_reply srv req w)"
        "response_status (first_reply srv req w) \<noteq> Some 401"
      by blast
    then show ?thesis
      by cases (simp_all add: api_retried api_resolved api_other_error Let_def)
  next
    case True
    show ?thesis
    proof (cases "truthy_item (getItem ''refresh_token'' w)")
      case False
      with True show ?thesis
        by (simp add: api_no_session unauthorized_not_resolved set_location_href_def)
    next
      case tok: True
      show ?thesis
      proof (cases "refresh_access (refresh_reply srv req w)")
        case (Inl e)
        with True tok show ?thesis
          by (simp add: api_session_expired unauthorized_not_resolved set_location_href_def)
      next
        case (Inr access)
        with True tok show ?thesis
          by (simp add: api_refreshed unauthorized_not_resolved api_retried Let_def)
      qed
    qed
  qed
  then show ?thesis
    by (auto simp add: navigations_made_def)
qed

lemma navigations_made_cases:
  "navigations_made srv req w = []
   \<or> (\<exists>store. navigations_made srv req w = [(''/login?reason=session_expired'', store)]
        \<and> session_cleared store)
   \<or> (\<exists>store. navigations_made srv req w = [(''/login?reason=no_session'', store)]
        \<and> session_cleared store)"
proof (cases "response_status (first_reply srv req w) = Some 401 \<and> \<not> retry req")
  case False
  then show ?thesis
    using navigations_made_retried [of req srv w] navigations_made_resolved [of srv req w]
      navigations_made_other_error [of srv req w]
    by blast
next
  case True
  show ?thesis
  proof (cases "truthy_item (getItem ''refresh_token'' w)")
    case False
    with True navigations_made_no_session [of srv req w] show ?thesis by blast
  next
    case tok: True
    show ?thesis
    proof (cases "refresh_access (refresh_reply srv req w)")
      case (Inl e)
      with True tok navigations_made_session_expired [of srv req w e] show ?thesis by blast
    next
      case (Inr access)
      with True tok navigations_made_refreshed [of srv req w access] show ?thesis by blast
    qed
  qed
qed

lemma navigations_authService_logout:
  "\<exists>pre. navigations (authService_logout srv w) = navigations w @ pre
     \<and> length pre \<le> 1
     \<and> (\<forall>(href, store) \<in> set pre.
          (href = ''/login?reason=session_expired'' \<or> href = ''/login?reason=no_session'')
          \<and> session_cleared store)"
proof (cases "truthy_item (getItem REFRESH_KEY w)")
  case False
  then show ?thesis
    by (simp add: authService_logout_def Let_def clearCurrentUser_def)
next
  case True
  let ?req = "logout_request (the (getItem REFRESH_KEY w))"
  have "navigations (authService_logout srv w) = navigations w @ navigations_made srv ?req w"
    using True
    by (simp add: authService_logout_def Let_def clearCurrentUser_def navigations_api_extends)
  then show ?thesis
    using navigations_made_cases [of srv ?req w] by auto
qed

lemma session_cleared_authService_logout:
  "session_cleared (localStorage (authService_logout srv w))"
  by (simp add: session_cleared_def authService_logout_def clearCurrentUser_def
      USER_KEY_def ACCESS_KEY_def REFRESH_KEY_def Let_def)

text \<open>
  Claim C6. A call of \<open>api\<close> navigates in two cases only, each time once, to the login
  route, after the three entries of the session have left local storage: with the reason
  \<open>session_expired\<close> when the refresh attempt after a 401 has failed, and with the reason
  \<open>no_session\<close> when a 401 finds no refresh token stored. The inactivity logout ends with
  a navigation to the login route with the reason \<open>inactivity\<close>, the session's entries
  removed before it; the one navigation that may precede it is one of the two of \<open>api\<close>,
  made by the logout request. So every forced logout carries one of the three reasons.
\<close>

theorem forced_logout_redirects:
  "(\<not> retry req \<and> response_status (first_reply srv req w) = Some 401
      \<and> truthy_item (getItem ''refresh_token'' w)
      \<and> refresh_access (refresh_reply srv req w) = Inl e \<longrightarrow>
      (\<exists>store. navigations_made srv req w = [(''/login?reason=session_expired'', store)]
         \<and> session_cleared store))
   \<and> (\<not> retry req \<and> response_status (first_reply srv req w) = Some 401
      \<and> \<not> truthy_item (getItem ''refresh_token'' w) \<longrightarrow>
      (\<exists>store. navigations_made srv req w = [(''/login?reason=no_session'', store)]
         \<and> session_cleared store))
   \<and> (navigations_made srv req w = []
      \<or> (\<exists>store. navigations_made srv req w = [(''/login?reason=session_expired'', store)]
           \<and> session_cleared store)
      \<or> (\<exists>store. navigations_made srv req w = [(''/login?reason=no_session'', store)]
           \<and> session_cleared store))
   \<and> (\<exists>pre store.
         navigations (handleInactivityLogout srv w) =
           navigations w @ pre @ [(''/login?reason=inactivity'', store)]
         \<and> session_cleared store
         \<and> length pre \<le> 1
         \<and> (\<forall>(href, store') \<in> set pre.
              (href = ''/login?reason=session_expired'' \<or> href = ''/login?reason=no_session'')
              \<and> session_cleared store'))"
proof (intro conjI impI)
  assume "\<not> retry req \<and> response_status (first_reply srv req w) = Some 401
      \<and> truthy_item (getItem ''refresh_token'' w)
      \<and> refresh_access (refresh_reply srv req w) = Inl e"
  then show "\<exists>store. navigations_made srv req w = [(''/login?reason=session_expired'', store)]
         \<and> session_cleared store"
    using navigations_made_session_expired [of srv req w e] by blast
next
  assume "\<not> retry req \<and> response_status (first_reply srv req w) = Some 401
      \<and> \<not> truthy_item (getItem ''refresh_token'' w)"
  then show "\<exists>store. navigations_made srv req w = [(''/login?reason=no_session'', store)]
         \<and> session_cleared store"
    using navigations_made_no_session [of srv req w] by blast
next
  show "navigations_made srv req w = []
      \<or> (\<exists>store. navigations_made srv req w = [(''/login?reason=session_expired'', store)]
           \<and> session_cleared store)
      \<or> (\<exists>store. navigations_made srv req w = [(''/login?reason=no_session'', store)]
           \<and> session_cleared store)"
    by (rule navigations_made_cases)
next
  obtain pre where pre: "navigations (authService_logout srv w) = navigations w @ pre"
    "length pre \<le> 1"
    "\<forall>(href, store) \<in> set pre.
          (href = ''/login?reason=session_expired'' \<or> href = ''/login?reason=no_session'')
          \<and> session_cleared store"
    using navigations_authService_logout [of srv w] by blast
  have "navigations (handleInactivityLogout srv w) =
      navigations w @ pre @
        [(''/login?reason=inactivity'', localStorage (authService_logout srv w))]"
    by (simp add: handleInactivityLogout_def set_location_href_def setUserState_def pre(1))
  with pre(2,3) session_cleared_authService_logout [of srv w]
  show "\<exists>pre store.
         navigations (handleInactivityLogout srv w) =
           navigations w @ pre @ [(''/login?reason=inactivity'', store)]
         \<and> session_cleared store
         \<and> length pre \<le> 1
         \<and> (\<forall>(href, store') \<in> set pre.
              (href = ''/login?reason=session_expired'' \<or> href = ''/login?reason=no_session'')
              \<and> session_cleared store')"
    by blast
qed


lemma always_401_run:
  "\<not> retry get_recipes"
  "response_status (first_reply always_401 get_recipes signed_in_world) = Some 401"
  "truthy_item (getItem ''refresh_token'' signed_in_world)"
  "refresh_access (refresh_reply always_401 get_recipes signed_in_world) =
     Inl (AxiosError (Response 401 JNull))"
  "response_status (first_reply always_401 get_recipes fresh_world) = Some 401"
  "\<not> truthy_item (getItem ''refresh_token'' fresh_world)"
  by code_simp+

theorem forced_logout_redirects_witness:
  "(\<exists>store. navigations_made always_401 get_recipes signed_in_world =
        [(''/login?reason=session_expired'', store)] \<and> session_cleared store)
   \<and> (\<exists>store. navigations_made always_401 get_recipes fresh_world =
        [(''/login?reason=no_session'', store)] \<and> session_cleared store)
   \<and> (\<exists>pre store. navigations (handleInactivityLogout always_401 signed_in_world) =
        pre @ [(''/login?reason=inactivity'', store)] \<and> session_cleared store)"
proof -
  have n: "navigations signed_in_world = []"
    by code_simp
  show ?thesis
    using forced_logout_redirects [of get_recipes always_401 signed_in_world
        "AxiosError (Response 401 JNull)"]
      forced_logout_redirects [of get_recipes always_401 fresh_world
        "AxiosError (Response 401 JNull)"]
      always_401_run n
    by auto
qed

section \<open>Properties of the inactivity timer\<close>

lemma api_frame:
  "timers (snd (api srv req w)) = timers w
   \<and> inactivityTimerRef (snd (api srv req w)) = inactivityTimerRef w
   \<and> next_timer (snd (api srv req w)) = next_timer w
   \<and> now (snd (api srv req w)) = now w
   \<and> listeners (snd (api srv req w)) = listeners w
   \<and> userState (snd (api srv req w)) = userState w"
proof (cases "response_status (first_reply srv req w) = Some 401 \<and> \<not> retry req")
  case False
  then consider "retry req" | "resolves (first_reply srv req w)"
    | "\<not> resolves (first_reply srv req w)"
      "response_status (first_reply srv req w) \<noteq> Some 401"
    by blast
  then show ?thesis
    by cases (simp_all add: api_retried api_resolved api_other_error Let_def)
next
  case True
  show ?thesis
  proof (cases "truthy_item (getItem ''refresh_token'' w)")
    case False
    with True show ?thesis
      by (simp add: api_no_session unauthorized_not_resolved set_location_href_def
          clear_session_def removeItem_def)
  next
    case tok: True
    show ?thesis
    proof (cases "refresh_access (refresh_reply srv req w)")
      case (Inl e)
      with True tok show ?thesis
        by (simp add: api_session_expired unauthorized_not_resolved set_location_href_def
            clear_session_def removeItem_def)
    next
      case (Inr access)
      with True tok show ?thesis
        by (simp add: api_refreshed unauthorized_not_resolved api_retried Let_def setItem_def)
    qed
  qed
qed

lemma authService_logout_frame:
  "timers (authService_logout srv w) = timers w
   \<and> inactivityTimerRef (authService_logout srv w) = inactivityTimerRef w
   \<and> next_timer (authService_logout srv w) = next_timer w
   \<and> now (authService_logout srv w) = now w
   \<and> listeners (authService_logout srv w) = listeners w"
  using api_frame [of srv "logout_request (the (getItem REFRESH_KEY w))" w]
  by (simp add: authService_logout_def Let_def clearCurrentUser_def removeItem_def)

lemma no_pairs_empty: "\<forall>a b. (a, b) \<notin> set xs \<Longrightarrow> xs = []"
  by (cases xs) auto

lemma clearInactivityTimer_cleared:
  "timer_inv w \<Longrightarrow>
   timers (clearInactivityTimer w) = [] \<and> inactivityTimerRef (clearInactivityTimer w) = None"
  by (cases "inactivityTimerRef w")
    (auto simp add: timer_inv_def clearInactivityTimer_def clearTimeout_def filter_empty_conv
      intro: no_pairs_empty)

lemma clearInactivityTimer_fields [simp]:
  "localStorage (clearInactivityTimer w) = localStorage w"
  "next_timer (clearInactivityTimer w) = next_timer w"
  "now (clearInactivityTimer w) = now w"
  "listeners (clearInactivityTimer w) = listeners w"
  "navigations (clearInactivityTimer w) = navigations w"
  by (simp_all add: clearInactivityTimer_def clearTimeout_def split: option.split)

lemma timer_inv_clearInactivityTimer: "timer_inv w \<Longrightarrow> timer_inv (clearInactivityTimer w)"
  using clearInactivityTimer_cleared [of w]
  by (simp add: timer_inv_def)

lemma getCurrentUser_storage:
  "localStorage w' = localStorage w \<Longrightarrow> getCurrentUser parse w' = getCurrentUser parse w"
  by (simp add: getCurrentUser_def getItem_def)

lemma resetInactivityTimer_logged_in:
  assumes "timer_inv w" and "truthy (getCurrentUser parse w)"
  shows "resetInactivityTimer parse w =
     (clearInactivityTimer w)
       \<lparr>timers := [(next_timer w, now w + INACTIVITY_TIMEOUT)],
        next_timer := next_timer w + 1,
        inactivityTimerRef := Some (next_timer w)\<rparr>"
proof -
  have "getCurrentUser parse (clearInactivityTimer w) = getCurrentUser parse w"
    by (rule getCurrentUser_storage) simp
  with assms clearInactivityTimer_cleared [OF assms(1)] show ?thesis
    by (simp add: resetInactivityTimer_def setTimeout_def Let_def)
qed

lemma resetInactivityTimer_logged_out:
  assumes "\<not> truthy (getCurrentUser parse w)"
  shows "resetInactivityTimer parse w = clearInactivityTimer w"
proof -
  have "getCurrentUser parse (clearInactivityTimer w) = getCurrentUser parse w"
    by (rule getCurrentUser_storage) simp
  with assms show ?thesis
    by (simp add: resetInactivityTimer_def Let_def)
qed

lemma timer_inv_resetInactivityTimer:
  "timer_inv w \<Longrightarrow> timer_inv (resetInactivityTimer parse w)"
proof (cases "truthy (getCurrentUser parse w)")
  case True
  assume "timer_inv w"
  with True show ?thesis
    by (simp add: resetInactivityTimer_logged_in) (simp add: timer_inv_def)
next
  case False
  assume "timer_inv w"
  with False show ?thesis
    by (simp add: resetInactivityTimer_logged_out timer_inv_clearInactivityTimer)
qed

lemma timer_inv_dispatchEvent: "timer_inv w \<Longrightarrow> timer_inv (dispatchEvent parse event w)"
  by (simp add: dispatchEvent_def handleActivity_def timer_inv_resetInactivityTimer)

lemma timer_inv_dispatchEvents: "timer_inv w \<Longrightarrow> timer_inv (dispatchEvents parse events w)"
  unfolding dispatchEvents_def
  by (induction events arbitrary: w) (simp_all add: timer_inv_dispatchEvent)

lemma dispatchEvent_logged_out:
  "\<not> truthy (getCurrentUser parse w) \<Longrightarrow> dispatchEvent parse event w = w"
  by (simp add: dispatchEvent_def handleActivity_def)

lemma dispatchEvents_logged_out:
  "\<not> truthy (getCurrentUser parse w) \<Longrightarrow> dispatchEvents parse events w = w"
  unfolding dispatchEvents_def
  by (induction events) (simp_all add: dispatchEvent_logged_out)

lemma timer_inv_authService_logout:
  "timer_inv w \<Longrightarrow> timer_inv (authService_logout srv w)"
  using authService_logout_frame [of srv w] by (simp add: timer_inv_def)


lemma advance_one_timer:
  assumes "timers v = [(h, due)]"
  shows "advance srv dt v =
     (if due \<le> now v + dt
      then handleInactivityLogout srv (v\<lparr>now := now v + dt, timers := []\<rparr>)
      else v\<lparr>now := now v + dt\<rparr>)"
proof (cases "due \<le> now v + dt")
  case True
  with assms show ?thesis by (simp add: advance_def Let_def)
next
  case False
  have "v\<lparr>now := now v + dt, timers := [(h, due)]\<rparr> = v\<lparr>now := now v + dt\<rparr>"
    using assms by (cases v) simp
  with False assms show ?thesis by (simp add: advance_def Let_def)
qed

lemma advance_no_timer:
  assumes "timers v = []"
  shows "advance srv dt v = v\<lparr>now := now v + dt\<rparr>"
proof -
  have "v\<lparr>now := now v + dt, timers := []\<rparr> = v\<lparr>now := now v + dt\<rparr>"
    using assms by (cases v) simp
  with assms show ?thesis by (simp add: advance_def Let_def)
qed

lemma dispatchEvent_resets:
  assumes "timer_inv w" and "event \<in> set (listeners w)"
    and "truthy (getCurrentUser parse w)"
  shows "dispatchEvent parse event w =
     (clearInactivityTimer w)
       \<lparr>timers := [(next_timer w, now w + INACTIVITY_TIMEOUT)],
        next_timer := next_timer w + 1,
        inactivityTimerRef := Some (next_timer w)\<rparr>"
  using assms by (simp add: dispatchEvent_def handleActivity_def resetInactivityTimer_logged_in)

lemma logout_clears_timer:
  assumes "timer_inv w"
  shows "timers (logout srv parse events w) = []
     \<and> inactivityTimerRef (logout srv parse events w) = None
     \<and> session_cleared (localStorage (logout srv parse events w))"
proof -
  let ?w3 = "authService_logout srv (dispatchEvents parse events (clearInactivityTimer w))"
  have inv3: "timer_inv ?w3"
    by (intro timer_inv_authService_logout timer_inv_dispatchEvents
        timer_inv_clearInactivityTimer assms)
  then have inv4: "timer_inv (clearCurrentUser (setUserState None ?w3))"
    by (simp add: timer_inv_def clearCurrentUser_def removeItem_def setUserState_def)
  have out: "logout srv parse events w =
      clearInactivityTimer (clearCurrentUser (setUserState None ?w3))"
    by (simp add: logout_def setUser_def Let_def)
  have "session_cleared (localStorage ?w3)"
    by (rule session_cleared_authService_logout)
  then have "session_cleared (localStorage (logout srv parse events w))"
    by (simp add: out session_cleared_def clearCurrentUser_def removeItem_def
        setUserState_def)
  with clearInactivityTimer_cleared [OF inv4] show ?thesis
    by (simp add: out)
qed

lemma session_cleared_logged_out:
  "session_cleared (localStorage v) \<Longrightarrow> \<not> truthy (getCurrentUser parse v)"
  by (simp add: session_cleared_def getCurrentUser_def getItem_def USER_KEY_def
      truthy_item_def Let_def)

lemma navigations_dispatchEvent [simp]:
  "navigations (dispatchEvent parse event w) = navigations w"
  by (simp add: dispatchEvent_def handleActivity_def resetInactivityTimer_def setTimeout_def
      Let_def)

lemma localStorage_dispatchEvent [simp]:
  "localStorage (dispatchEvent parse event w) = localStorage w"
  by (simp add: dispatchEvent_def handleActivity_def resetInactivityTimer_def setTimeout_def
      Let_def)

lemma handleInactivityLogout_effect:
  "session_cleared (localStorage (handleInactivityLogout srv u))
   \<and> userState (handleInactivityLogout srv u) = None
   \<and> timers (handleInactivityLogout srv u) = timers u
   \<and> (\<exists>pre store.
         navigations (handleInactivityLogout srv u) =
           navigations u @ pre @ [(''/login?reason=inactivity'', store)]
         \<and> session_cleared store \<and> length pre \<le> 1)"
proof -
  obtain pre where pre: "navigations (authService_logout srv u) = navigations u @ pre"
    "length pre \<le> 1"
    using navigations_authService_logout [of srv u] by blast
  have "navigations (handleInactivityLogout srv u) =
      navigations u @ pre @
        [(''/login?reason=inactivity'', localStorage (authService_logout srv u))]"
    by (simp add: handleInactivityLogout_def set_location_href_def setUserState_def pre(1))
  with pre(2) session_cleared_authService_logout [of srv u]
  have "\<exists>pre store.
         navigations (handleInactivityLogout srv u) =
           navigations u @ pre @ [(''/login?reason=inactivity'', store)]
         \<and> session_cleared store \<and> length pre \<le> 1"
    by blast
  moreover have "session_cleared (localStorage (handleInactivityLogout srv u))"
    using session_cleared_authService_logout [of srv u]
    by (simp add: handleInactivityLogout_def set_location_href_def setUserState_def)
  moreover have "userState (handleInactivityLogout srv u) = None"
    by (simp add: handleInactivityLogout_def set_location_href_def setUserState_def)
  moreover have "timers (handleInactivityLogout srv u) = timers u"
    using authService_logout_frame [of srv u]
    by (simp add: handleInactivityLogout_def set_location_href_def setUserState_def)
  ultimately show ?thesis by blast
qed

text \<open>
  Claim C5. The activity events are the five the claim names, the idle duration is 12
  hours in milliseconds, and mounting the provider registers the handler for each of the
  events and keeps the timer table in order. On a page whose timer table holds at most
  the timeout the reference names, with the provider mounted: while a user is logged in,
  each of the events
  \<open>mousedown\<close>, \<open>keydown\<close>, \<open>scroll\<close>, \<open>touchstart\<close> and \<open>click\<close> leaves exactly one
  pending timeout, due \<open>INACTIVITY_TIMEOUT\<close> (12 hours) from now and named by the
  reference. With no further activity nothing happens before that time: storage and the
  navigation log are as they were. At that time the inactivity logout runs: the
  session's entries are gone from storage, the user state is null, no timeout is pending
  and the page's last navigation is to the login route with the reason \<open>inactivity\<close>,
  made when storage was already cleared. After the context's \<open>logout\<close>, whatever events
  arrived while its request was awaited, no timeout is pending, the reference is null and
  the session's entries are gone from storage; later events set no timeout, and no
  passing of time makes the page navigate.
\<close>

theorem inactivity_timer_lifecycle:
  assumes "timer_inv w" and "set activityEvents \<subseteq> set (listeners w)"
  shows "activityEvents = [''mousedown'', ''keydown'', ''scroll'', ''touchstart'', ''click'']
    \<and> INACTIVITY_TIMEOUT = 12 * 60 * 60 * 1000
    \<and> timer_inv (mount parse w)
    \<and> set activityEvents \<subseteq> set (listeners (mount parse w))
    \<and> (event \<in> set activityEvents \<and> truthy (getCurrentUser parse w) \<longrightarrow>
       timers (dispatchEvent parse event w) = [(next_timer w, now w + INACTIVITY_TIMEOUT)]
       \<and> inactivityTimerRef (dispatchEvent parse event w) = Some (next_timer w)
       \<and> (\<forall>dt<INACTIVITY_TIMEOUT.
            advance srv dt (dispatchEvent parse event w) =
              (dispatchEvent parse event w)\<lparr>now := now w + dt\<rparr>
            \<and> localStorage (advance srv dt (dispatchEvent parse event w)) = localStorage w
            \<and> navigations (advance srv dt (dispatchEvent parse event w)) = navigations w)
       \<and> (\<forall>dt\<ge>INACTIVITY_TIMEOUT.
            advance srv dt (dispatchEvent parse event w) =
              handleInactivityLogout srv
                ((dispatchEvent parse event w)\<lparr>now := now w + dt, timers := []\<rparr>)
            \<and> session_cleared (localStorage (advance srv dt (dispatchEvent parse event w)))
            \<and> userState (advance srv dt (dispatchEvent parse event w)) = None
            \<and> timers (advance srv dt (dispatchEvent parse event w)) = []
            \<and> (\<exists>pre store.
                  navigations (advance srv dt (dispatchEvent parse event w)) =
                    navigations w @ pre @ [(''/login?reason=inactivity'', store)]
                  \<and> session_cleared store \<and> length pre \<le> 1)))
    \<and> timers (logout srv parse events w) = []
    \<and> inactivityTimerRef (logout srv parse events w) = None
    \<and> session_cleared (localStorage (logout srv parse events w))
    \<and> timers (dispatchEvents parse later (logout srv parse events w)) = []
    \<and> navigations (advance srv dt' (dispatchEvents parse later (logout srv parse events w)))
        = navigations (logout srv parse events w)"
proof -
  let ?out = "logout srv parse events w"
  let ?v = "dispatchEvent parse event w"
  have A: "event \<in> set activityEvents \<and> truthy (getCurrentUser parse w) \<longrightarrow>
       timers ?v = [(next_timer w, now w + INACTIVITY_TIMEOUT)]
       \<and> inactivityTimerRef ?v = Some (next_timer w)
       \<and> (\<forall>dt<INACTIVITY_TIMEOUT.
            advance srv dt ?v = ?v\<lparr>now := now w + dt\<rparr>
            \<and> localStorage (advance srv dt ?v) = localStorage w
            \<and> navigations (advance srv dt ?v) = navigations w)
       \<and> (\<forall>dt\<ge>INACTIVITY_TIMEOUT.
            advance srv dt ?v =
              handleInactivityLogout srv (?v\<lparr>now := now w + dt, timers := []\<rparr>)
            \<and> session_cleared (localStorage (advance srv dt ?v))
            \<and> userState (advance srv dt ?v) = None
            \<and> timers (advance srv dt ?v) = []
            \<and> (\<exists>pre store.
                  navigations (advance srv dt ?v) =
                    navigations w @ pre @ [(''/login?reason=inactivity'', store)]
                  \<and> session_cleared store \<and> length pre \<le> 1))"
  proof (intro impI, elim conjE)
    assume ev: "event \<in> set activityEvents" and user: "truthy (getCurrentUser parse w)"
    from ev assms(2) have "event \<in> set (listeners w)" by blast
    from dispatchEvent_resets [OF assms(1) this user]
    have t: "timers ?v = [(next_timer w, now w + INACTIVITY_TIMEOUT)]"
      and r: "inactivityTimerRef ?v = Some (next_timer w)"
      and n: "now ?v = now w"
      by simp_all
    have early: "\<forall>dt<INACTIVITY_TIMEOUT.
            advance srv dt ?v = ?v\<lparr>now := now w + dt\<rparr>
            \<and> localStorage (advance srv dt ?v) = localStorage w
            \<and> navigations (advance srv dt ?v) = navigations w"
      by (simp add: advance_one_timer [OF t] n)
    have late: "\<forall>dt\<ge>INACTIVITY_TIMEOUT.
            advance srv dt ?v =
              handleInactivityLogout srv (?v\<lparr>now := now w + dt, timers := []\<rparr>)
            \<and> session_cleared (localStorage (advance srv dt ?v))
            \<and> userState (advance srv dt ?v) = None
            \<and> timers (advance srv dt ?v) = []
            \<and> (\<exists>pre store.
                  navigations (advance srv dt ?v) =
                    navigations w @ pre @ [(''/login?reason=inactivity'', store)]
                  \<and> session_cleared store \<and> length pre \<le> 1)"
    proof (intro allI impI)
      fix dt assume "INACTIVITY_TIMEOUT \<le> dt"
      let ?u = "?v\<lparr>now := now w + dt, timers := []\<rparr>"
      from \<open>INACTIVITY_TIMEOUT \<le> dt\<close>
      have fired: "advance srv dt ?v = handleInactivityLogout srv ?u"
        by (simp add: advance_one_timer [OF t] n)
      have "navigations ?u = navigations w" and "timers ?u = []"
        by simp_all
      with handleInactivityLogout_effect [of srv ?u] fired
      show "advance srv dt ?v =
              handleInactivityLogout srv (?v\<lparr>now := now w + dt, timers := []\<rparr>)
            \<and> session_cleared (localStorage (advance srv dt ?v))
            \<and> userState (advance srv dt ?v) = None
            \<and> timers (advance srv dt ?v) = []
            \<and> (\<exists>pre store.
                  navigations (advance srv dt ?v) =
                    navigations w @ pre @ [(''/login?reason=inactivity'', store)]
                  \<and> session_cleared store \<and> length pre \<le> 1)"
        by simp
    qed
    from t r early late
    show "timers ?v = [(next_timer w, now w + INACTIVITY_TIMEOUT)]
       \<and> inactivityTimerRef ?v = Some (next_timer w)
       \<and> (\<forall>dt<INACTIVITY_TIMEOUT.
            advance srv dt ?v = ?v\<lparr>now := now w + dt\<rparr>
            \<and> localStorage (advance srv dt ?v) = localStorage w
            \<and> navigations (advance srv dt ?v) = navigations w)
       \<and> (\<forall>dt\<ge>INACTIVITY_TIMEOUT.
            advance srv dt ?v =
              handleInactivityLogout srv (?v\<lparr>now := now w + dt, timers := []\<rparr>)
            \<and> session_cleared (localStorage (advance srv dt ?v))
            \<and> userState (advance srv dt ?v) = None
            \<and> timers (advance srv dt ?v) = []
            \<and> (\<exists>pre store.
                  navigations (advance srv dt ?v) =
                    navigations w @ pre @ [(''/login?reason=inactivity'', store)]
                  \<and> session_cleared store \<and> length pre \<le> 1))"
      by blast
  qed
  have B: "timers ?out = [] \<and> inactivityTimerRef ?out = None
      \<and> session_cleared (localStorage ?out)"
    by (rule logout_clears_timer [OF assms(1)])
  then have same: "dispatchEvents parse later ?out = ?out"
    by (simp add: dispatchEvents_logged_out session_cleared_logged_out)
  have C: "timers (dispatchEvents parse later ?out) = []"
    using B by (simp add: same)
  have D: "navigations (advance srv dt' (dispatchEvents parse later ?out)) = navigations ?out"
    using B by (simp add: same advance_no_timer)
  have E: "activityEvents = [''mousedown'', ''keydown'', ''scroll'', ''touchstart'', ''click'']"
    "INACTIVITY_TIMEOUT = 12 * 60 * 60 * 1000"
    by (simp_all only: activityEvents_def INACTIVITY_TIMEOUT_def)
  have "timer_inv (setUserState (getItem USER_KEY w) w)"
    using assms(1) by (simp add: timer_inv_def setUserState_def)
  then have "timer_inv (resetInactivityTimer parse (setUserState (getItem USER_KEY w) w))"
    by (rule timer_inv_resetInactivityTimer)
  with assms(1) have F: "timer_inv (mount parse w)"
    by (simp add: mount_def Let_def timer_inv_def)
  have G: "set activityEvents \<subseteq> set (listeners (mount parse w))"
    by (simp add: mount_def Let_def)
  from A B C D E F G show ?thesis by blast
qed

lemma signed_in_user: "getCurrentUser parse_chris signed_in_world = JObject [(''id'', JNumber 1)]"
  by (simp add: getCurrentUser_def getItem_def signed_in_world_def setItem_def USER_KEY_def
      truthy_item_def parse_chris_def chris_json_def Let_def)

lemma mounted_world_eq:
  "mounted_world =
     signed_in_world
       \<lparr>inactivityTimerRef := Some 1, timers := [(1, INACTIVITY_TIMEOUT)], next_timer := 2,
        userState := Some chris_json, listeners := activityEvents\<rparr>"
proof -
  let ?w = "setUserState (getItem USER_KEY signed_in_world) signed_in_world"
  have u: "getCurrentUser parse_chris ?w = JObject [(''id'', JNumber 1)]"
    using signed_in_user
    by (simp add: getCurrentUser_def getItem_def setUserState_def)
  have c: "clearInactivityTimer ?w = ?w"
    by (simp add: clearInactivityTimer_def setUserState_def signed_in_world_def setItem_def
        fresh_world_def)
  have "getCurrentUser parse_chris (clearInactivityTimer ?w) = JObject [(''id'', JNumber 1)]"
    by (simp only: c u)
  then have "resetInactivityTimer parse_chris ?w =
      ?w\<lparr>timers := [(1, INACTIVITY_TIMEOUT)], next_timer := 2,
         inactivityTimerRef := Some 1\<rparr>"
    by (simp add: resetInactivityTimer_def Let_def c setTimeout_def)
      (simp add: setUserState_def signed_in_world_def setItem_def fresh_world_def)
  then show ?thesis
    by (simp add: mounted_world_def mount_def signed_in_user Let_def)
      (simp add: setUserState_def signed_in_world_def setItem_def fresh_world_def getItem_def
        USER_KEY_def)
qed

lemma mounted_world_facts:
  "timer_inv mounted_world"
  "set activityEvents \<subseteq> set (listeners mounted_world)"
  "''click'' \<in> set activityEvents"
  "truthy (getCurrentUser parse_chris mounted_world)"
  "next_timer mounted_world = 2"
  "now mounted_world = 0"
proof -
  have "getCurrentUser parse_chris mounted_world = getCurrentUser parse_chris signed_in_world"
    by (rule getCurrentUser_storage) (simp add: mounted_world_eq)
  then show "truthy (getCurrentUser parse_chris mounted_world)"
    by (simp add: signed_in_user)
  show "timer_inv mounted_world"
    by (simp add: mounted_world_eq timer_inv_def)
  show "set activityEvents \<subseteq> set (listeners mounted_world)"
    by (simp add: mounted_world_eq)
  show "''click'' \<in> set activityEvents"
    by (simp add: activityEvents_def)
  show "next_timer mounted_world = 2"
    by (simp add: mounted_world_eq)
  show "now mounted_world = 0"
    by (simp add: mounted_world_eq signed_in_world_def setItem_def fresh_world_def)
qed

theorem inactivity_timer_lifecycle_witness:
  "timers (dispatchEvent parse_chris ''click'' mounted_world) = [(2, INACTIVITY_TIMEOUT)]
   \<and> inactivityTimerRef (dispatchEvent parse_chris ''click'' mounted_world) = Some 2
   \<and> navigations (advance always_401 (INACTIVITY_TIMEOUT - 1)
        (dispatchEvent parse_chris ''click'' mounted_world)) = []
   \<and> localStorage (advance always_401 (INACTIVITY_TIMEOUT - 1)
        (dispatchEvent parse_chris ''click'' mounted_world)) ''user'' = Some chris_json
   \<and> session_cleared (localStorage (advance always_401 INACTIVITY_TIMEOUT
        (dispatchEvent parse_chris ''click'' mounted_world)))
   \<and> userState (advance always_401 INACTIVITY_TIMEOUT
        (dispatchEvent parse_chris ''click'' mounted_world)) = None
   \<and> (\<exists>pre store. navigations (advance always_401 INACTIVITY_TIMEOUT
        (dispatchEvent parse_chris ''click'' mounted_world)) =
          pre @ [(''/login?reason=inactivity'', store)] \<and> session_cleared store)
   \<and> timers (logout always_401 parse_chris [''click''] mounted_world) = []
   \<and> inactivityTimerRef (logout always_401 parse_chris [''click''] mounted_world) = None"
proof -
  have m: "navigations mounted_world = []"
    "localStorage mounted_world ''user'' = Some chris_json"
    by (simp_all add: mounted_world_eq signed_in_world_def setItem_def fresh_world_def)
  have p: "0 < INACTIVITY_TIMEOUT"
    by (simp add: INACTIVITY_TIMEOUT_def)
  note life = inactivity_timer_lifecycle [OF mounted_world_facts(1,2),
      where parse = parse_chris and event = "''click''" and srv = always_401
        and events = "[''click'']" and later = "[]" and dt' = 0]
  from life mounted_world_facts(3,4)
  have early: "\<forall>dt<INACTIVITY_TIMEOUT.
      localStorage (advance always_401 dt (dispatchEvent parse_chris ''click'' mounted_world))
        = localStorage mounted_world
      \<and> navigations (advance always_401 dt
          (dispatchEvent parse_chris ''click'' mounted_world)) = navigations mounted_world"
    and late: "\<forall>dt\<ge>INACTIVITY_TIMEOUT.
      session_cleared (localStorage (advance always_401 dt
          (dispatchEvent parse_chris ''click'' mounted_world)))
      \<and> userState (advance always_401 dt
          (dispatchEvent parse_chris ''click'' mounted_world)) = None
      \<and> (\<exists>pre store. navigations (advance always_401 dt
          (dispatchEvent parse_chris ''click'' mounted_world)) =
            navigations mounted_world @ pre @ [(''/login?reason=inactivity'', store)]
          \<and> session_cleared store \<and> length pre \<le> 1)"
    and set: "timers (dispatchEvent parse_chris ''click'' mounted_world) =
        [(next_timer mounted_world, now mounted_world + INACTIVITY_TIMEOUT)]"
      "inactivityTimerRef (dispatchEvent parse_chris ''click'' mounted_world) =
        Some (next_timer mounted_world)"
    and out: "timers (logout always_401 parse_chris [''click''] mounted_world) = []"
      "inactivityTimerRef (logout always_401 parse_chris [''click''] mounted_world) = None"
    by blast+
  from early p have e: "navigations (advance always_401 (INACTIVITY_TIMEOUT - 1)
        (dispatchEvent parse_chris ''click'' mounted_world)) = []"
    "localStorage (advance always_401 (INACTIVITY_TIMEOUT - 1)
        (dispatchEvent parse_chris ''click'' mounted_world)) ''user'' = Some chris_json"
    by (simp_all add: m)
  from late have l: "session_cleared (localStorage (advance always_401 INACTIVITY_TIMEOUT
        (dispatchEvent parse_chris ''click'' mounted_world)))"
    "userState (advance always_401 INACTIVITY_TIMEOUT
        (dispatchEvent parse_chris ''click'' mounted_world)) = None"
    "\<exists>pre store. navigations (advance always_401 INACTIVITY_TIMEOUT
        (dispatchEvent parse_chris ''click'' mounted_world)) =
          pre @ [(''/login?reason=inactivity'', store)] \<and> session_cleared store"
    by (auto simp add: m)
  from set e l out show ?thesis
    by (simp add: mounted_world_facts)
qed

section \<open>Properties of the derived total time\<close>

lemma read_after_write:
  "read_recipe rid (store\<lparr>rows := (rows store)(rid \<mapsto> row_of_payload p)\<rparr>) =
     Some (materialize rid (row_of_payload p))"
  by (simp add: read_recipe_def row_of_payload_def)

text \<open>
  Claim C4. \<open>computeTotalTime prep cook\<close> is \<open>prep + cook\<close>. For every payload without
  violations, create succeeds, and the recipe it returns and the recipe read back have
  \<open>total_time\<close> equal to the payload's prep time plus its cook time; the same holds for
  an update of an existing recipe, whose total time is that of the new times, whatever
  the times stored before.
\<close>

theorem total_time_is_prep_plus_cook:
  "computeTotalTime prep cook = prep + cook
   \<and> (validate_payload p = [] \<longrightarrow>
        (\<exists>r store'. create_recipe p store = Inr (r, store')
           \<and> total_time r = payload_prep_time p + payload_cook_time p
           \<and> read_recipe (returned_id r) store' = Some r))
   \<and> (validate_payload p = [] \<and> read_recipe rid store = Some old \<longrightarrow>
        (\<exists>r store'. update_recipe rid p store = Inr (r, store')
           \<and> total_time r = payload_prep_time p + payload_cook_time p
           \<and> read_recipe rid store' = Some r))"
proof (intro conjI impI)
  show "computeTotalTime prep cook = prep + cook"
    by (simp add: computeTotalTime_def)
next
  assume "validate_payload p = []"
  then show "\<exists>r store'. create_recipe p store = Inr (r, store')
           \<and> total_time r = payload_prep_time p + payload_cook_time p
           \<and> read_recipe (returned_id r) store' = Some r"
    by (simp add: create_recipe_def Let_def read_recipe_def)
      (simp add: materialize_def row_of_payload_def computeTotalTime_def)
next
  assume "validate_payload p = [] \<and> read_recipe rid store = Some old"
  then show "\<exists>r store'. update_recipe rid p store = Inr (r, store')
           \<and> total_time r = payload_prep_time p + payload_cook_time p
           \<and> read_recipe rid store' = Some r"
    by (simp add: update_recipe_def Let_def read_after_write)
      (simp add: materialize_def row_of_payload_def computeTotalTime_def)
qed

lemma carbonara_created:
  "validate_payload carbonara_payload = []"
  "validate_payload (carbonara_payload\<lparr>payload_cook_time := 25\<rparr>) = []"
  "read_recipe 1 (snd (projr (create_recipe carbonara_payload empty_store))) =
     Some (materialize 1 (row_of_payload carbonara_payload))"
  by code_simp+

theorem total_time_is_prep_plus_cook_witness:
  "(\<exists>r store'. create_recipe carbonara_payload empty_store = Inr (r, store')
      \<and> total_time r = 30)
   \<and> (\<exists>r store'. update_recipe 1 (carbonara_payload\<lparr>payload_cook_time := 25\<rparr>)
          (snd (projr (create_recipe carbonara_payload empty_store))) = Inr (r, store')
      \<and> total_time r = 35)"
  using total_time_is_prep_plus_cook [of 10 20 carbonara_payload empty_store 1
      "materialize 1 (row_of_payload carbonara_payload)"]
    total_time_is_prep_plus_cook [of 10 25 "carbonara_payload\<lparr>payload_cook_time := 25\<rparr>"
      "snd (projr (create_recipe carbonara_payload empty_store))" 1
      "materialize 1 (row_of_payload carbonara_payload)"]
    carbonara_created
  by (auto simp add: carbonara_payload_def)

end
